theory Spec2Isabelle
  imports Main "HOL-Library.Word"
begin

unbundle bit_operations_syntax

section \<open>MRF24WG RAW (Random Access Window) driver: wf\_raw.c\<close>

text \<open>
  A shallow embedding of \<^verbatim>\<open>sys/mips/dev/mrf24g/wf_raw.c\<close>. The driver keeps two
  globals (the out-of-bounds bitmask and the mount state of the two data windows) and
  talks to the chip through register primitives that live outside this file. Each
  function of the driver becomes a function on an explicit state; the two polling loops
  may run forever, so they and their callers return an \<open>option\<close>, \<open>None\<close> meaning
  that the call does not return.
\<close>

type_synonym u8 = "8 word"
type_synonym u16 = "16 word"
type_synonym u32 = "32 word"

subsection \<open>Constants of the missing headers\<close>

text \<open>
  The macros of \<^verbatim>\<open>wf_universal_driver.h\<close> and \<^verbatim>\<open>wf_global_includes.h\<close> are not part
  of the source at hand, so their values are parameters: one field per macro, the
  per-window register macros \<^verbatim>\<open>MRF24_REG_RAWn_INDEX\<close> and friends as a function of
  \<open>n\<close>. Every function of the driver takes the header as its first argument.
\<close>

record hdr =
  MRF24_REG_INTR :: nat
  MRF24_REG_INTR2 :: nat
  MRF24_REG_WFIFO_BCNT0 :: nat
  MRF24_REG_WFIFO_BCNT1 :: nat
  MRF24_REG_RAW_INDEX :: "nat \<Rightarrow> nat"
  MRF24_REG_RAW_STATUS :: "nat \<Rightarrow> nat"
  MRF24_REG_RAW_CTRL0 :: "nat \<Rightarrow> nat"
  MRF24_REG_RAW_CTRL1 :: "nat \<Rightarrow> nat"
  MRF24_REG_RAW_DATA :: "nat \<Rightarrow> nat"
  INTR_RAW0 :: nat
  INTR_RAW1 :: nat
  INTR_INT2 :: nat
  INTR2_RAW2 :: nat
  INTR2_RAW3 :: nat
  INTR2_RAW4 :: nat
  INTR2_RAW5 :: nat
  FIFO_BCNT_MASK :: nat
  RAW_DATA_RX_ID :: nat
  RAW_DATA_TX_ID :: nat
  RAW_MGMT_RX_ID :: nat
  RAW_MGMT_TX_ID :: nat
  RAW_SCRATCH_ID :: nat
  RAW_MAC :: nat
  RAW_MGMT_POOL :: nat
  RAW_DATA_POOL :: nat
  RAW_SCRATCH_POOL :: nat
  WF_RAW_UNMOUNTED :: nat
  WF_RAW_DATA_MOUNTED :: nat

definition NUM_RAW_WINDOWS :: nat where
  \<comment> \<open>the number of initialisers of every per-window table of the file\<close>
  "NUM_RAW_WINDOWS = 6"

definition WF_RAW_STATUS_REG_BUSY_MASK :: u16 where
  "WF_RAW_STATUS_REG_BUSY_MASK = 0x0001"

subsection \<open>The chip and the observable effects\<close>

text \<open>
  Every call of a primitive is recorded, in order, in the trace of the state. What the
  chip answers is not decided by the driver: the answers are a parameter, indexed by
  the number of primitive calls made so far (the length of the trace), so that any
  behaviour of the chip and of the timer is some value of \<open>device\<close>.
\<close>

datatype event =
    EvRead nat
  | EvReadByte nat
  | EvWrite nat nat
  | EvWriteByte nat nat
  | EvWriteArray nat "u8 list" nat
  | EvReadArray nat nat
  | EvIntrDisable
  | EvIntrEnable
  | EvTimerRead
  | EvTimerElapsed nat
  | EvUdelay nat
  | EvPrintf string string "nat list"

record device =
  reg_word :: "nat \<Rightarrow> nat \<Rightarrow> u16"
  reg_byte :: "nat \<Rightarrow> nat \<Rightarrow> u8"
  reg_array :: "nat \<Rightarrow> nat \<Rightarrow> nat \<Rightarrow> u8"
  timer_now :: "nat \<Rightarrow> u32"
  timer_elapsed :: "nat \<Rightarrow> u32 \<Rightarrow> u32"

record raw_state =
  g_RawIndexPastEnd :: u8
  RawWindowState :: "u8 list"
  intr_enabled :: bool
  trace :: "event list"

definition tick :: "raw_state \<Rightarrow> nat" where
  "tick s = length (trace s)"

definition emit :: "event \<Rightarrow> raw_state \<Rightarrow> raw_state" where
  "emit e s = s\<lparr>trace := trace s @ [e]\<rparr>"

text \<open>
  Modelled from the spec: the register transport, the interrupt primitives, the timer
  and the delay are external collaborators (spec section 6: byte and word register
  read and write, buffered array read and write, interrupt enable and disable returning
  the prior state, a timer read, an elapsed-time computation and a busy delay). A read
  returns what the device answers at this point of the run; every primitive leaves one
  event in the trace.
\<close>

definition mrf_read :: "device \<Rightarrow> nat \<Rightarrow> raw_state \<Rightarrow> u16 \<times> raw_state" where
  "mrf_read d reg s = (reg_word d (tick s) reg, emit (EvRead reg) s)"

definition mrf_read_byte :: "device \<Rightarrow> nat \<Rightarrow> raw_state \<Rightarrow> u8 \<times> raw_state" where
  "mrf_read_byte d reg s = (reg_byte d (tick s) reg, emit (EvReadByte reg) s)"

definition mrf_write :: "nat \<Rightarrow> nat \<Rightarrow> raw_state \<Rightarrow> raw_state" where
  "mrf_write reg v s = emit (EvWrite reg v) s"

definition mrf_write_byte :: "nat \<Rightarrow> nat \<Rightarrow> raw_state \<Rightarrow> raw_state" where
  "mrf_write_byte reg v s = emit (EvWriteByte reg v) s"

definition mrf_write_array :: "nat \<Rightarrow> u8 list \<Rightarrow> nat \<Rightarrow> raw_state \<Rightarrow> raw_state" where
  "mrf_write_array reg buf len s = emit (EvWriteArray reg buf len) s"

definition mrf_read_array :: "device \<Rightarrow> nat \<Rightarrow> nat \<Rightarrow> raw_state \<Rightarrow> u8 list \<times> raw_state" where
  "mrf_read_array d reg len s =
     (map (reg_array d (tick s) reg) [0..<len], emit (EvReadArray reg len) s)"

definition mrf_intr_disable :: "raw_state \<Rightarrow> bool \<times> raw_state" where
  "mrf_intr_disable s = (intr_enabled s, emit EvIntrDisable (s\<lparr>intr_enabled := False\<rparr>))"

definition mrf_intr_enable :: "raw_state \<Rightarrow> raw_state" where
  "mrf_intr_enable s = emit EvIntrEnable (s\<lparr>intr_enabled := True\<rparr>)"

definition mrf_timer_read :: "device \<Rightarrow> raw_state \<Rightarrow> u32 \<times> raw_state" where
  "mrf_timer_read d s = (timer_now d (tick s), emit EvTimerRead s)"

definition mrf_timer_elapsed :: "device \<Rightarrow> u32 \<Rightarrow> raw_state \<Rightarrow> u32 \<times> raw_state" where
  "mrf_timer_elapsed d start s =
     (timer_elapsed d (tick s) start, emit (EvTimerElapsed (unat start)) s)"

definition udelay :: "nat \<Rightarrow> raw_state \<Rightarrow> raw_state" where
  "udelay n s = emit (EvUdelay n) s"

definition printf :: "string \<Rightarrow> string \<Rightarrow> nat list \<Rightarrow> raw_state \<Rightarrow> raw_state" where
  "printf fmt func args s = emit (EvPrintf fmt func args) s"

subsection \<open>The tables of the file\<close>

text \<open>
  Each table has \<open>NUM_RAW_WINDOWS\<close> entries of the element type the file declares.
  A window identifier outside the table is undefined behaviour in C; here \<open>!\<close> is
  unspecified there, and every theorem about a window assumes it below
  \<open>NUM_RAW_WINDOWS\<close>.
\<close>

definition g_RawIndexReg :: "hdr \<Rightarrow> u8 list" where
  "g_RawIndexReg h = map (\<lambda>n. of_nat (MRF24_REG_RAW_INDEX h n)) [0..<NUM_RAW_WINDOWS]"

definition g_RawStatusReg :: "hdr \<Rightarrow> u8 list" where
  "g_RawStatusReg h = map (\<lambda>n. of_nat (MRF24_REG_RAW_STATUS h n)) [0..<NUM_RAW_WINDOWS]"

definition g_RawCtrl0Reg :: "hdr \<Rightarrow> u16 list" where
  "g_RawCtrl0Reg h = map (\<lambda>n. of_nat (MRF24_REG_RAW_CTRL0 h n)) [0..<NUM_RAW_WINDOWS]"

definition g_RawCtrl1Reg :: "hdr \<Rightarrow> u16 list" where
  "g_RawCtrl1Reg h = map (\<lambda>n. of_nat (MRF24_REG_RAW_CTRL1 h n)) [0..<NUM_RAW_WINDOWS]"

definition g_RawDataReg :: "hdr \<Rightarrow> u16 list" where
  "g_RawDataReg h = map (\<lambda>n. of_nat (MRF24_REG_RAW_DATA h n)) [0..<NUM_RAW_WINDOWS]"

definition g_RawIntMask :: "hdr \<Rightarrow> u16 list" where
  "g_RawIntMask h =
     [of_nat (INTR_RAW0 h), of_nat (INTR_RAW1 h), of_nat (INTR2_RAW2 h),
      of_nat (INTR2_RAW3 h), of_nat (INTR2_RAW4 h), of_nat (INTR2_RAW5 h)]"

definition g_RawAccessOutOfBoundsMask :: "u8 list" where
  "g_RawAccessOutOfBoundsMask = [0x01, 0x02, 0x04, 0x08, 0x10, 0x20]"

definition SetIndexOutOfBoundsFlag :: "nat \<Rightarrow> raw_state \<Rightarrow> raw_state" where
  "SetIndexOutOfBoundsFlag rawId s =
     s\<lparr>g_RawIndexPastEnd := g_RawIndexPastEnd s OR g_RawAccessOutOfBoundsMask ! rawId\<rparr>"

definition ClearIndexOutOfBoundsFlag :: "nat \<Rightarrow> raw_state \<Rightarrow> raw_state" where
  "ClearIndexOutOfBoundsFlag rawId s =
     s\<lparr>g_RawIndexPastEnd := g_RawIndexPastEnd s AND NOT (g_RawAccessOutOfBoundsMask ! rawId)\<rparr>"

definition isIndexOutOfBounds :: "nat \<Rightarrow> raw_state \<Rightarrow> bool" where
  "isIndexOutOfBounds rawId s =
     (g_RawIndexPastEnd s AND g_RawAccessOutOfBoundsMask ! rawId > 0)"

definition SetRawDataWindowState :: "nat \<Rightarrow> nat \<Rightarrow> raw_state \<Rightarrow> raw_state" where
  \<comment> \<open>the array has two entries; an index of 2 or more is undefined behaviour in C and
      leaves the list as it is here\<close>
  "SetRawDataWindowState rawId st s =
     s\<lparr>RawWindowState := (RawWindowState s)[rawId := of_nat st]\<rparr>"

definition GetRawDataWindowState :: "nat \<Rightarrow> raw_state \<Rightarrow> u8" where
  "GetRawDataWindowState rawId s = RawWindowState s ! rawId"

subsection \<open>The move engine\<close>

partial_function (option) WaitForRawMoveComplete_loop ::
  "hdr \<Rightarrow> device \<Rightarrow> u32 \<Rightarrow> u32 \<Rightarrow> raw_state \<Rightarrow> raw_state option" where
  "WaitForRawMoveComplete_loop h d intMask start_time s =
     (case mrf_read_byte d (MRF24_REG_INTR h) s of (intr, s1) \<Rightarrow>
        if (ucast intr :: u32) AND intMask \<noteq> 0 then
          Some (mrf_write_byte (MRF24_REG_INTR h) (unat intMask)
                 (if intMask = of_nat (INTR_INT2 h)
                  then mrf_write (MRF24_REG_INTR2 h)
                         (INTR2_RAW2 h OR INTR2_RAW3 h OR INTR2_RAW4 h OR INTR2_RAW5 h) s1
                  else s1))
        else
          (case mrf_timer_elapsed d start_time s1 of (el, s2) \<Rightarrow>
             if el > 20 then
               Some (printf ''--- %s: timeout waiting for interrupt''
                       ''WaitForRawMoveComplete'' [] s2)
             else WaitForRawMoveComplete_loop h d intMask start_time (udelay 10 s2)))"

definition WaitForRawMoveComplete ::
  "hdr \<Rightarrow> device \<Rightarrow> nat \<Rightarrow> raw_state \<Rightarrow> (u32 \<times> raw_state) option" where
  "WaitForRawMoveComplete h d rawId s =
     (let intMask :: u32 =
            (if rawId \<le> 1 then (if rawId = 0 then of_nat (INTR_RAW0 h) else of_nat (INTR_RAW1 h))
             else of_nat (INTR_INT2 h))
      in case mrf_timer_read d s of (start_time, s1) \<Rightarrow>
           (case WaitForRawMoveComplete_loop h d intMask start_time s1 of
              None \<Rightarrow> None
            | Some s2 \<Rightarrow>
                (case mrf_read d (unat (g_RawCtrl1Reg h ! rawId)) s2 of (nbytes, s3) \<Rightarrow>
                   Some (ucast nbytes, s3))))"

definition RawMove_ctrlVal :: "u16 \<Rightarrow> bool \<Rightarrow> u16 \<Rightarrow> u16" where
  \<comment> \<open>lines 494 to 508: the control value, built by or-ing into 0\<close>
  "RawMove_ctrlVal srcDest rawIsDestination sz =
     (((if rawIsDestination then 0 OR 0x8000 else 0)
        OR push_bit 8 srcDest)
        OR push_bit 8 (drop_bit 8 sz AND 0x0f))
        OR (sz AND 0x00ff)"

definition RawMove ::
  "hdr \<Rightarrow> device \<Rightarrow> nat \<Rightarrow> u16 \<Rightarrow> bool \<Rightarrow> u16 \<Rightarrow> raw_state \<Rightarrow> (u16 \<times> raw_state) option" where
  "RawMove h d rawId srcDest rawIsDestination sz s =
     (case mrf_intr_disable s of (intEnabled, s1) \<Rightarrow>
      let ctrlVal = RawMove_ctrlVal srcDest rawIsDestination sz;
          s2 = (if rawId \<le> 1
                then mrf_write_byte (MRF24_REG_INTR h)
                       (unat (ucast (g_RawIntMask h ! rawId) :: u8)) s1
                else mrf_write (MRF24_REG_INTR2 h)
                       (unat (ucast (g_RawIntMask h ! rawId) :: u8)) s1);
          regId = (ucast (g_RawCtrl0Reg h ! rawId) :: u8);
          s3 = mrf_write (unat regId) (unat ctrlVal) s2;
          s4 = mrf_intr_enable s3
      in case WaitForRawMoveComplete h d rawId s4 of
           None \<Rightarrow> None
         | Some (nbytes, s5) \<Rightarrow>
             Some (ucast nbytes, if \<not> intEnabled then snd (mrf_intr_disable s5) else s5))"

subsection \<open>Scratch, management and data buffers\<close>

definition ScratchMount :: "hdr \<Rightarrow> device \<Rightarrow> nat \<Rightarrow> raw_state \<Rightarrow> (u16 \<times> raw_state) option" where
  "ScratchMount h d rawId s = RawMove h d rawId (of_nat (RAW_SCRATCH_POOL h)) True 0 s"

definition ScratchUnmount :: "hdr \<Rightarrow> device \<Rightarrow> nat \<Rightarrow> raw_state \<Rightarrow> raw_state option" where
  "ScratchUnmount h d rawId s =
     map_option snd (RawMove h d rawId (of_nat (RAW_SCRATCH_POOL h)) False 0 s)"

definition RawInit :: "hdr \<Rightarrow> device \<Rightarrow> raw_state \<Rightarrow> raw_state option" where
  "RawInit h d s =
     (case ScratchUnmount h d 1 s of
        None \<Rightarrow> None
      | Some s1 \<Rightarrow>
          (case ScratchMount h d (RAW_SCRATCH_ID h) s1 of
             None \<Rightarrow> None
           | Some (nbytes, s2) \<Rightarrow>
               Some (SetRawDataWindowState (RAW_DATA_RX_ID h) (WF_RAW_UNMOUNTED h)
                      (SetRawDataWindowState (RAW_DATA_TX_ID h) (WF_RAW_UNMOUNTED h) s2))))"

definition AllocateMgmtTxBuffer ::
  "hdr \<Rightarrow> device \<Rightarrow> u16 \<Rightarrow> raw_state \<Rightarrow> (bool \<times> raw_state) option" where
  "AllocateMgmtTxBuffer h d bytesNeeded s =
     (case mrf_read d (MRF24_REG_WFIFO_BCNT1 h) s of (v, s1) \<Rightarrow>
      let bufAvail = v AND of_nat (FIFO_BCNT_MASK h) in
      if bufAvail \<ge> bytesNeeded then
        (case RawMove h d (RAW_MGMT_TX_ID h) (of_nat (RAW_MGMT_POOL h)) True bytesNeeded s1 of
           None \<Rightarrow> None
         | Some (nbytes, s2) \<Rightarrow>
             if nbytes = 0 then Some (False, s2)
             else Some (True, ClearIndexOutOfBoundsFlag (RAW_MGMT_TX_ID h) s2))
      else if bufAvail > 0 then
        (case RawMove h d (RAW_MGMT_RX_ID h) (of_nat (RAW_MGMT_POOL h)) False 0 s1 of
           None \<Rightarrow> None
         | Some (nbytes, s2) \<Rightarrow> Some (False, s2))
      else Some (False, s1))"

definition DeallocateMgmtRxBuffer :: "hdr \<Rightarrow> device \<Rightarrow> raw_state \<Rightarrow> raw_state option" where
  "DeallocateMgmtRxBuffer h d s =
     map_option snd (RawMove h d (RAW_MGMT_RX_ID h) (of_nat (RAW_MGMT_POOL h)) False 0 s)"

definition SendRAWManagementFrame :: "hdr \<Rightarrow> device \<Rightarrow> u16 \<Rightarrow> raw_state \<Rightarrow> raw_state option" where
  "SendRAWManagementFrame h d bufLen s =
     map_option snd (RawMove h d (RAW_MGMT_TX_ID h) (of_nat (RAW_MAC h)) False bufLen s)"

definition RawMountRxBuffer :: "hdr \<Rightarrow> device \<Rightarrow> nat \<Rightarrow> raw_state \<Rightarrow> (u16 \<times> raw_state) option" where
  "RawMountRxBuffer h d rawId s =
     (case RawMove h d rawId (of_nat (RAW_MAC h)) True 0 s of
        None \<Rightarrow> None
      | Some (len, s1) \<Rightarrow>
          let s2 = (if len = 0 then printf ''--- %s: failed'' ''RawMountRxBuffer'' [] s1 else s1);
              s3 = (if rawId = RAW_DATA_RX_ID h
                    then SetRawDataWindowState (RAW_DATA_RX_ID h) (WF_RAW_DATA_MOUNTED h) s2
                    else s2)
          in Some (len, s3))"

definition AllocateDataTxBuffer ::
  "hdr \<Rightarrow> device \<Rightarrow> u16 \<Rightarrow> raw_state \<Rightarrow> (bool \<times> raw_state) option" where
  "AllocateDataTxBuffer h d bytesNeeded s =
     (case mrf_read d (MRF24_REG_WFIFO_BCNT0 h) s of (v, s1) \<Rightarrow>
      let bufAvail = v AND of_nat (FIFO_BCNT_MASK h) in
      if bufAvail < bytesNeeded then Some (False, s1)
      else
        (case RawMove h d (RAW_DATA_TX_ID h) (of_nat (RAW_DATA_POOL h)) True bytesNeeded s1 of
           None \<Rightarrow> None
         | Some (nbytes, s2) \<Rightarrow>
             if nbytes = 0
             then Some (False, printf ''--- %s: failed'' ''AllocateDataTxBuffer'' [] s2)
             else Some (True,
                    SetRawDataWindowState (RAW_DATA_TX_ID h) (WF_RAW_DATA_MOUNTED h) s2)))"

definition DeallocateDataRxBuffer :: "hdr \<Rightarrow> device \<Rightarrow> raw_state \<Rightarrow> raw_state option" where
  "DeallocateDataRxBuffer h d s =
     map_option snd
       (RawMove h d (RAW_DATA_RX_ID h) (of_nat (RAW_DATA_POOL h)) False 0
          (SetRawDataWindowState (RAW_DATA_RX_ID h) (WF_RAW_UNMOUNTED h) s))"

subsection \<open>Index and byte transfer\<close>

partial_function (option) RawSetIndex_loop ::
  "device \<Rightarrow> nat \<Rightarrow> nat \<Rightarrow> u16 \<Rightarrow> u32 \<Rightarrow> raw_state \<Rightarrow> raw_state option" where
  "RawSetIndex_loop d rawId regId index start_time s =
     (case mrf_read d regId s of (regValue, s1) \<Rightarrow>
        if regValue AND WF_RAW_STATUS_REG_BUSY_MASK = 0 then
          Some (ClearIndexOutOfBoundsFlag rawId s1)
        else
          (case mrf_timer_elapsed d start_time s1 of (el, s2) \<Rightarrow>
             if el > 5 then
               Some (printf ''--- %s: bad index=%u out of bounds'' ''RawSetIndex'' [unat index]
                       (SetIndexOutOfBoundsFlag rawId s2))
             else RawSetIndex_loop d rawId regId index start_time (udelay 10 s2)))"

definition RawSetIndex :: "hdr \<Rightarrow> device \<Rightarrow> nat \<Rightarrow> u16 \<Rightarrow> raw_state \<Rightarrow> raw_state option" where
  "RawSetIndex h d rawId index s =
     (let s1 = mrf_write (unat (g_RawIndexReg h ! rawId)) (unat index) s;
          regId = g_RawStatusReg h ! rawId
      in case mrf_timer_read d s1 of (start_time, s2) \<Rightarrow>
           RawSetIndex_loop d rawId (unat regId) index start_time s2)"

definition RawSetByte :: "hdr \<Rightarrow> nat \<Rightarrow> u8 list \<Rightarrow> u16 \<Rightarrow> raw_state \<Rightarrow> raw_state" where
  "RawSetByte h rawId p_buffer len s =
     (let s1 = (if isIndexOutOfBounds rawId s
                then printf ''--- %s: index out of bounds'' ''RawSetByte'' [] s else s);
          regId = (ucast (g_RawDataReg h ! rawId) :: u8)
      in mrf_write_array (unat regId) p_buffer (unat len) s1)"

definition RawGetByte ::
  "hdr \<Rightarrow> device \<Rightarrow> nat \<Rightarrow> u16 \<Rightarrow> raw_state \<Rightarrow> u8 list \<times> raw_state" where
  "RawGetByte h d rawId len s =
     (let s1 = (if isIndexOutOfBounds rawId s
                then printf ''--- %s: index out of bounds'' ''RawGetByte'' [] s else s);
          regId = (ucast (g_RawDataReg h ! rawId) :: u8)
      in mrf_read_array d (unat regId) (unat len) s1)"

definition RawRead ::
  "hdr \<Rightarrow> device \<Rightarrow> nat \<Rightarrow> u16 \<Rightarrow> u16 \<Rightarrow> raw_state \<Rightarrow> (u8 list \<times> raw_state) option" where
  "RawRead h d rawId startIndex len s =
     map_option (RawGetByte h d rawId len) (RawSetIndex h d rawId startIndex s)"

definition RawWrite ::
  "hdr \<Rightarrow> device \<Rightarrow> nat \<Rightarrow> u16 \<Rightarrow> u16 \<Rightarrow> u8 list \<Rightarrow> raw_state \<Rightarrow> raw_state option" where
  "RawWrite h d rawId startIndex len p_src s =
     map_option (RawSetByte h rawId p_src len) (RawSetIndex h d rawId startIndex s)"

subsection \<open>The sequence of operations of the module\<close>

text \<open>
  The functions of the file, as the operations a caller can issue one after another.
  A run threads the state through them and has no result when one of them does not
  return.
\<close>

datatype op =
    Op_RawInit
  | Op_ScratchMount nat
  | Op_ScratchUnmount nat
  | Op_AllocateMgmtTxBuffer u16
  | Op_DeallocateMgmtRxBuffer
  | Op_RawSetByte nat "u8 list" u16
  | Op_RawGetByte nat u16
  | Op_SendRAWManagementFrame u16
  | Op_RawMountRxBuffer nat
  | Op_RawRead nat u16 u16
  | Op_RawWrite nat u16 u16 "u8 list"
  | Op_RawSetIndex nat u16
  | Op_AllocateDataTxBuffer u16
  | Op_DeallocateDataRxBuffer
  | Op_RawMove nat u16 bool u16
  | Op_SetRawDataWindowState nat nat
  | Op_GetRawDataWindowState nat

fun exec_op :: "hdr \<Rightarrow> device \<Rightarrow> op \<Rightarrow> raw_state \<Rightarrow> raw_state option" where
  "exec_op h d Op_RawInit s = RawInit h d s"
| "exec_op h d (Op_ScratchMount rawId) s = map_option snd (ScratchMount h d rawId s)"
| "exec_op h d (Op_ScratchUnmount rawId) s = ScratchUnmount h d rawId s"
| "exec_op h d (Op_AllocateMgmtTxBuffer n) s = map_option snd (AllocateMgmtTxBuffer h d n s)"
| "exec_op h d Op_DeallocateMgmtRxBuffer s = DeallocateMgmtRxBuffer h d s"
| "exec_op h d (Op_RawSetByte rawId buf len) s = Some (RawSetByte h rawId buf len s)"
| "exec_op h d (Op_RawGetByte rawId len) s = Some (snd (RawGetByte h d rawId len s))"
| "exec_op h d (Op_SendRAWManagementFrame n) s = SendRAWManagementFrame h d n s"
| "exec_op h d (Op_RawMountRxBuffer rawId) s = map_option snd (RawMountRxBuffer h d rawId s)"
| "exec_op h d (Op_RawRead rawId i len) s = map_option snd (RawRead h d rawId i len s)"
| "exec_op h d (Op_RawWrite rawId i len buf) s = RawWrite h d rawId i len buf s"
| "exec_op h d (Op_RawSetIndex rawId i) s = RawSetIndex h d rawId i s"
| "exec_op h d (Op_AllocateDataTxBuffer n) s = map_option snd (AllocateDataTxBuffer h d n s)"
| "exec_op h d Op_DeallocateDataRxBuffer s = DeallocateDataRxBuffer h d s"
| "exec_op h d (Op_RawMove rawId srcDest dst sz) s =
     map_option snd (RawMove h d rawId srcDest dst sz s)"
| "exec_op h d (Op_SetRawDataWindowState rawId st) s = Some (SetRawDataWindowState rawId st s)"
| "exec_op h d (Op_GetRawDataWindowState rawId) s = Some s"

fun run :: "hdr \<Rightarrow> device \<Rightarrow> op list \<Rightarrow> raw_state \<Rightarrow> raw_state option" where
  "run h d [] s = Some s"
| "run h d (x # xs) s = (case exec_op h d x s of None \<Rightarrow> None | Some s1 \<Rightarrow> run h d xs s1)"

definition flag_after :: "hdr \<Rightarrow> device \<Rightarrow> op list \<Rightarrow> raw_state \<Rightarrow> nat \<Rightarrow> bool option" where
  \<comment> \<open>the out-of-bounds flag of a window once the operations have run\<close>
  "flag_after h d xs s w = map_option (isIndexOutOfBounds w) (run h d xs s)"

fun sets_index :: "nat \<Rightarrow> op \<Rightarrow> bool" where
  \<comment> \<open>the operations that call \<open>RawSetIndex\<close> on the window\<close>
  "sets_index w (Op_RawSetIndex rawId i) = (rawId = w)"
| "sets_index w (Op_RawRead rawId i len) = (rawId = w)"
| "sets_index w (Op_RawWrite rawId i len buf) = (rawId = w)"
| "sets_index w x = False"

fun index_window :: "op \<Rightarrow> nat option" where
  "index_window (Op_RawSetIndex rawId i) = Some rawId"
| "index_window (Op_RawRead rawId i len) = Some rawId"
| "index_window (Op_RawWrite rawId i len buf) = Some rawId"
| "index_window x = None"

definition op_ok :: "op \<Rightarrow> bool" where
  \<comment> \<open>the window of an index-set is one of the windows of the tables\<close>
  "op_ok x = (case index_window x of None \<Rightarrow> True | Some w \<Rightarrow> w < NUM_RAW_WINDOWS)"

fun alloc_succeeds :: "hdr \<Rightarrow> device \<Rightarrow> op \<Rightarrow> raw_state \<Rightarrow> bool" where
  \<comment> \<open>the operation is an \<open>AllocateMgmtTxBuffer\<close> that returns true from this state\<close>
  "alloc_succeeds h d (Op_AllocateMgmtTxBuffer n) s =
     (map_option fst (AllocateMgmtTxBuffer h d n s) = Some True)"
| "alloc_succeeds h d x s = False"

fun untouched :: "hdr \<Rightarrow> device \<Rightarrow> nat \<Rightarrow> op list \<Rightarrow> raw_state \<Rightarrow> bool" where
  \<comment> \<open>no operation of the run is an index-set on the window, nor, for the management
      Tx window, a successful \<open>AllocateMgmtTxBuffer\<close>\<close>
  "untouched h d w [] s = True"
| "untouched h d w (x # xs) s =
     (\<not> sets_index w x
      \<and> \<not> (w = RAW_MGMT_TX_ID h \<and> alloc_succeeds h d x s)
      \<and> (case exec_op h d x s of None \<Rightarrow> True | Some s1 \<Rightarrow> untouched h d w xs s1))"

subsection \<open>Traces of the two polling loops\<close>

text \<open>
  The rest of this section describes runs rather than code. A polling loop that starts
  when \<open>t\<close> primitives have been called reads its register at \<open>t\<close>, asks the timer
  at \<open>t + 1\<close> and delays at \<open>t + 2\<close>, so its next poll is at \<open>t + 3\<close>.
  \<open>wait_ends\<close> and \<open>index_ends\<close> say how a loop ends at its poll number \<open>k\<close>,
  counted from 0: completed, timed out, or not at this poll.
\<close>


definition emits :: "event list \<Rightarrow> raw_state \<Rightarrow> raw_state" where
  "emits evs s = s\<lparr>trace := trace s @ evs\<rparr>"

definition poll_hit :: "hdr \<Rightarrow> device \<Rightarrow> u32 \<Rightarrow> nat \<Rightarrow> bool" where
  "poll_hit h d intMask t = ((ucast (reg_byte d t (MRF24_REG_INTR h)) :: u32) AND intMask \<noteq> 0)"

definition poll_late :: "device \<Rightarrow> u32 \<Rightarrow> nat \<Rightarrow> bool" where
  "poll_late d start_time t = (20 < timer_elapsed d (Suc t) start_time)"

datatype wait_end = Completed | TimedOut

fun wait_ends :: "hdr \<Rightarrow> device \<Rightarrow> u32 \<Rightarrow> u32 \<Rightarrow> nat \<Rightarrow> nat \<Rightarrow> wait_end option" where
  "wait_ends h d intMask start_time t 0 =
     (if poll_hit h d intMask t then Some Completed
      else if poll_late d start_time t then Some TimedOut
      else None)"
| "wait_ends h d intMask start_time t (Suc k) =
     (if poll_hit h d intMask t \<or> poll_late d start_time t then None
      else wait_ends h d intMask start_time (t + 3) k)"

fun wait_events :: "hdr \<Rightarrow> u32 \<Rightarrow> u32 \<Rightarrow> nat \<Rightarrow> wait_end \<Rightarrow> event list" where
  "wait_events h intMask start_time 0 Completed =
     [EvReadByte (MRF24_REG_INTR h)]
     @ (if intMask = of_nat (INTR_INT2 h)
        then [EvWrite (MRF24_REG_INTR2 h)
                (INTR2_RAW2 h OR INTR2_RAW3 h OR INTR2_RAW4 h OR INTR2_RAW5 h)]
        else [])
     @ [EvWriteByte (MRF24_REG_INTR h) (unat intMask)]"
| "wait_events h intMask start_time 0 TimedOut =
     [EvReadByte (MRF24_REG_INTR h), EvTimerElapsed (unat start_time),
      EvPrintf ''--- %s: timeout waiting for interrupt'' ''WaitForRawMoveComplete'' []]"
| "wait_events h intMask start_time (Suc k) e =
     [EvReadByte (MRF24_REG_INTR h), EvTimerElapsed (unat start_time), EvUdelay 10]
     @ wait_events h intMask start_time k e"

definition intMask_of :: "hdr \<Rightarrow> nat \<Rightarrow> u32" where
  "intMask_of h rawId =
     (if rawId \<le> 1 then (if rawId = 0 then of_nat (INTR_RAW0 h) else of_nat (INTR_RAW1 h))
      else of_nat (INTR_INT2 h))"

text \<open>
  A call of \<open>RawMove\<close> from state \<open>s\<close> disables the interrupt, clears the stale
  interrupt bit, writes the control value, enables the interrupt and reads the timer:
  the wait loop starts five primitives later.
\<close>


definition RawMove_wait :: "hdr \<Rightarrow> device \<Rightarrow> nat \<Rightarrow> raw_state \<Rightarrow> nat \<Rightarrow> wait_end option" where
  "RawMove_wait h d rawId s k =
     wait_ends h d (intMask_of h rawId) (timer_now d (tick s + 4)) (tick s + 5) k"

definition RawMove_clear :: "hdr \<Rightarrow> nat \<Rightarrow> event" where
  "RawMove_clear h rawId =
     (if rawId \<le> 1
      then EvWriteByte (MRF24_REG_INTR h) (unat (ucast (g_RawIntMask h ! rawId) :: u8))
      else EvWrite (MRF24_REG_INTR2 h) (unat (ucast (g_RawIntMask h ! rawId) :: u8)))"

definition RawMove_issue :: "hdr \<Rightarrow> nat \<Rightarrow> u16 \<Rightarrow> bool \<Rightarrow> u16 \<Rightarrow> event" where
  "RawMove_issue h rawId srcDest rawIsDestination sz =
     EvWrite (unat (ucast (g_RawCtrl0Reg h ! rawId) :: u8))
       (unat (RawMove_ctrlVal srcDest rawIsDestination sz))"

definition RawMove_events ::
  "hdr \<Rightarrow> device \<Rightarrow> nat \<Rightarrow> u16 \<Rightarrow> bool \<Rightarrow> u16 \<Rightarrow> raw_state \<Rightarrow> nat \<Rightarrow> wait_end \<Rightarrow> event list" where
  "RawMove_events h d rawId srcDest rawIsDestination sz s k e =
     [EvIntrDisable, RawMove_clear h rawId, RawMove_issue h rawId srcDest rawIsDestination sz,
      EvIntrEnable, EvTimerRead]
     @ wait_events h (intMask_of h rawId) (timer_now d (tick s + 4)) k e
     @ [EvRead (unat (g_RawCtrl1Reg h ! rawId))]
     @ (if intr_enabled s then [] else [EvIntrDisable])"

definition RawMove_nbytes :: "hdr \<Rightarrow> device \<Rightarrow> nat \<Rightarrow> raw_state \<Rightarrow> nat \<Rightarrow> wait_end \<Rightarrow> u16" where
  "RawMove_nbytes h d rawId s k e =
     reg_word d
       (tick s + 5 + length (wait_events h (intMask_of h rawId) (timer_now d (tick s + 4)) k e))
       (unat (g_RawCtrl1Reg h ! rawId))"

text \<open>
  \<open>RawSetIndex\<close> writes the index register and reads the timer, then polls the
  status register.
\<close>


definition index_ready :: "device \<Rightarrow> nat \<Rightarrow> nat \<Rightarrow> bool" where
  "index_ready d regId t = (reg_word d t regId AND WF_RAW_STATUS_REG_BUSY_MASK = 0)"

definition index_late :: "device \<Rightarrow> u32 \<Rightarrow> nat \<Rightarrow> bool" where
  "index_late d start_time t = (5 < timer_elapsed d (Suc t) start_time)"

fun index_ends :: "device \<Rightarrow> nat \<Rightarrow> u32 \<Rightarrow> nat \<Rightarrow> nat \<Rightarrow> wait_end option" where
  "index_ends d regId start_time t 0 =
     (if index_ready d regId t then Some Completed
      else if index_late d start_time t then Some TimedOut
      else None)"
| "index_ends d regId start_time t (Suc k) =
     (if index_ready d regId t \<or> index_late d start_time t then None
      else index_ends d regId start_time (t + 3) k)"

fun index_events :: "nat \<Rightarrow> u16 \<Rightarrow> u32 \<Rightarrow> nat \<Rightarrow> wait_end \<Rightarrow> event list" where
  "index_events regId index start_time 0 Completed = [EvRead regId]"
| "index_events regId index start_time 0 TimedOut =
     [EvRead regId, EvTimerElapsed (unat start_time),
      EvPrintf ''--- %s: bad index=%u out of bounds'' ''RawSetIndex'' [unat index]]"
| "index_events regId index start_time (Suc k) e =
     [EvRead regId, EvTimerElapsed (unat start_time), EvUdelay 10]
     @ index_events regId index start_time k e"

definition index_flag :: "nat \<Rightarrow> wait_end \<Rightarrow> raw_state \<Rightarrow> raw_state" where
  "index_flag rawId e s =
     (case e of Completed \<Rightarrow> ClearIndexOutOfBoundsFlag rawId s
              | TimedOut \<Rightarrow> SetIndexOutOfBoundsFlag rawId s)"

definition RawSetIndex_wait :: "hdr \<Rightarrow> device \<Rightarrow> nat \<Rightarrow> raw_state \<Rightarrow> nat \<Rightarrow> wait_end option" where
  "RawSetIndex_wait h d rawId s k =
     index_ends d (unat (g_RawStatusReg h ! rawId)) (timer_now d (tick s + 1)) (tick s + 2) k"

definition RawSetIndex_events :: "hdr \<Rightarrow> device \<Rightarrow> nat \<Rightarrow> u16 \<Rightarrow> raw_state \<Rightarrow> nat \<Rightarrow> wait_end \<Rightarrow> event list" where
  "RawSetIndex_events h d rawId index s k e =
     [EvWrite (unat (g_RawIndexReg h ! rawId)) (unat index), EvTimerRead]
     @ index_events (unat (g_RawStatusReg h ! rawId)) index (timer_now d (tick s + 1)) k e"


text \<open>
  What the two allocation functions compute as \<open>bufAvail\<close> when they are called in
  state \<open>s\<close>: the FIFO byte counter the chip reports at that moment, masked.
\<close>

definition mgmt_avail :: "hdr \<Rightarrow> device \<Rightarrow> raw_state \<Rightarrow> u16" where
  "mgmt_avail h d s =
     reg_word d (tick s) (MRF24_REG_WFIFO_BCNT1 h) AND of_nat (FIFO_BCNT_MASK h)"

definition data_avail :: "hdr \<Rightarrow> device \<Rightarrow> raw_state \<Rightarrow> u16" where
  "data_avail h d s =
     reg_word d (tick s) (MRF24_REG_WFIFO_BCNT0 h) AND of_nat (FIFO_BCNT_MASK h)"

subsection \<open>A sample header and sample chips\<close>

text \<open>
  Concrete values on which the definitions can be evaluated. The header numbers the
  windows in the order the comments of the file give them (data Rx 0, data Tx 1,
  management Rx 2, management Tx 3, scratch 4) and shifts the pool selectors by four
  bits; the register numbers are sample values. The chips answer every read the same
  way.
\<close>

definition sample_hdr :: hdr where
  "sample_hdr =
     \<lparr>MRF24_REG_INTR = 0x01, MRF24_REG_INTR2 = 0x2d,
      MRF24_REG_WFIFO_BCNT0 = 0x2f, MRF24_REG_WFIFO_BCNT1 = 0x31,
      MRF24_REG_RAW_INDEX = (\<lambda>n. [0x27, 0x2b, 0x1a, 0x1e, 0x0c, 0x22] ! n),
      MRF24_REG_RAW_STATUS = (\<lambda>n. [0x28, 0x2c, 0x1b, 0x1f, 0x0d, 0x23] ! n),
      MRF24_REG_RAW_CTRL0 = (\<lambda>n. [0x25, 0x29, 0x18, 0x1c, 0x0a, 0x0e] ! n),
      MRF24_REG_RAW_CTRL1 = (\<lambda>n. [0x26, 0x2a, 0x19, 0x1d, 0x0b, 0x0f] ! n),
      MRF24_REG_RAW_DATA = (\<lambda>n. [0x20, 0x21, 0x06, 0x07, 0x08, 0x09] ! n),
      INTR_RAW0 = 0x02, INTR_RAW1 = 0x04, INTR_INT2 = 0x01,
      INTR2_RAW2 = 0x0010, INTR2_RAW3 = 0x0020, INTR2_RAW4 = 0x0004, INTR2_RAW5 = 0x0008,
      FIFO_BCNT_MASK = 0x0fff,
      RAW_DATA_RX_ID = 0, RAW_DATA_TX_ID = 1, RAW_MGMT_RX_ID = 2, RAW_MGMT_TX_ID = 3,
      RAW_SCRATCH_ID = 4,
      RAW_MAC = 0x00, RAW_MGMT_POOL = 0x10, RAW_DATA_POOL = 0x20, RAW_SCRATCH_POOL = 0x30,
      WF_RAW_UNMOUNTED = 0, WF_RAW_DATA_MOUNTED = 1\<rparr>"

definition chip_ready :: device where
  \<comment> \<open>every word register reads 100, every interrupt bit is pending, no time passes\<close>
  "chip_ready =
     \<lparr>reg_word = (\<lambda>t r. 100), reg_byte = (\<lambda>t r. 0xff), reg_array = (\<lambda>t r i. 0),
      timer_now = (\<lambda>t. 0), timer_elapsed = (\<lambda>t st. 0)\<rparr>"

definition chip_short :: device where
  \<comment> \<open>as \<open>chip_ready\<close>, with every word register reading 30\<close>
  "chip_short =
     \<lparr>reg_word = (\<lambda>t r. 30), reg_byte = (\<lambda>t r. 0xff), reg_array = (\<lambda>t r i. 0),
      timer_now = (\<lambda>t. 0), timer_elapsed = (\<lambda>t st. 0)\<rparr>"

definition chip_silent :: device where
  \<comment> \<open>no interrupt is ever pending, every word register reads 0, and the timer has
      run past every budget\<close>
  "chip_silent =
     \<lparr>reg_word = (\<lambda>t r. 0), reg_byte = (\<lambda>t r. 0), reg_array = (\<lambda>t r i. 0),
      timer_now = (\<lambda>t. 0), timer_elapsed = (\<lambda>t st. 21)\<rparr>"

definition chip_past_end :: device where
  \<comment> \<open>every word register reads 0x0fff, so every status register stays busy; the
      interrupts are pending and the timer has run past every budget\<close>
  "chip_past_end =
     \<lparr>reg_word = (\<lambda>t r. 0x0fff), reg_byte = (\<lambda>t r. 0xff), reg_array = (\<lambda>t r i. 0),
      timer_now = (\<lambda>t. 0), timer_elapsed = (\<lambda>t st. 21)\<rparr>"

definition boot_state :: raw_state where
  \<comment> \<open>the globals as the file initialises them, interrupts enabled, nothing done yet\<close>
  "boot_state =
     \<lparr>g_RawIndexPastEnd = 0, RawWindowState = [0, 0], intr_enabled = True, trace = []\<rparr>"

section \<open>Auxiliary lemmas\<close>

lemma emit_emits: "emit e s = emits [e] s"
  by (simp add: emit_def emits_def)

lemma emits_emits [simp]: "emits b (emits a s) = emits (a @ b) s"
  by (simp add: emits_def)

lemma emits_fields [simp]:
  "trace (emits evs s) = trace s @ evs"
  "g_RawIndexPastEnd (emits evs s) = g_RawIndexPastEnd s"
  "RawWindowState (emits evs s) = RawWindowState s"
  "intr_enabled (emits evs s) = intr_enabled s"
  by (simp_all add: emits_def)

lemma tick_emits [simp]: "tick (emits evs s) = tick s + length evs"
  by (simp add: emits_def tick_def)

lemma emits_Nil [simp]: "emits [] s = s"
  by (simp add: emits_def)

lemma wait_loop_ends:
  "wait_ends h d m st (tick s) k = Some e \<Longrightarrow>
   WaitForRawMoveComplete_loop h d m st s = Some (emits (wait_events h m st k e) s)"
proof (induction k arbitrary: s)
  case 0
  show ?case
  proof (cases e)
    case Completed
    with 0 have "poll_hit h d m (tick s)"
      by (simp split: if_splits)
    then show ?thesis unfolding Completed
      by (subst WaitForRawMoveComplete_loop.simps)
         (simp add: poll_hit_def mrf_read_byte_def mrf_write_byte_def mrf_write_def emit_emits)
  next
    case TimedOut
    with 0 have "\<not> poll_hit h d m (tick s)" "poll_late d st (tick s)"
      by (simp_all split: if_splits)
    then show ?thesis unfolding TimedOut
      by (subst WaitForRawMoveComplete_loop.simps)
         (simp add: poll_hit_def poll_late_def mrf_read_byte_def mrf_timer_elapsed_def
            printf_def emit_emits)
  qed
next
  case (Suc k)
  let ?s' = "emits [EvReadByte (MRF24_REG_INTR h), EvTimerElapsed (unat st), EvUdelay 10] s"
  from Suc.prems have nh: "\<not> poll_hit h d m (tick s)" and nl: "\<not> poll_late d st (tick s)"
    and rest: "wait_ends h d m st (tick ?s') k = Some e"
    by (simp_all add: eval_nat_numeral split: if_splits)
  have step: "WaitForRawMoveComplete_loop h d m st s = WaitForRawMoveComplete_loop h d m st ?s'"
    using nh nl
    by (subst WaitForRawMoveComplete_loop.simps)
       (simp add: poll_hit_def poll_late_def mrf_read_byte_def mrf_timer_elapsed_def udelay_def
          emit_emits)
  from Suc.IH [OF rest] step show ?case by simp
qed

lemma WaitForRawMoveComplete_alt:
  "WaitForRawMoveComplete h d rawId s =
     (case WaitForRawMoveComplete_loop h d (intMask_of h rawId) (timer_now d (tick s))
             (emits [EvTimerRead] s) of
        None \<Rightarrow> None
      | Some s2 \<Rightarrow>
          Some (ucast (reg_word d (tick s2) (unat (g_RawCtrl1Reg h ! rawId))),
                emits [EvRead (unat (g_RawCtrl1Reg h ! rawId))] s2))"
  unfolding WaitForRawMoveComplete_def intMask_of_def Let_def mrf_timer_read_def mrf_read_def
    emit_emits
  by (simp split: option.split)

lemma WaitForRawMoveComplete_ends:
  assumes "wait_ends h d (intMask_of h rawId) (timer_now d (tick s)) (Suc (tick s)) k = Some e"
  shows "WaitForRawMoveComplete h d rawId s =
           Some (ucast (reg_word d (Suc (tick s) + length (wait_events h (intMask_of h rawId) (timer_now d (tick s)) k e))
                   (unat (g_RawCtrl1Reg h ! rawId))),
                 emits ([EvTimerRead] @ wait_events h (intMask_of h rawId) (timer_now d (tick s)) k e
                        @ [EvRead (unat (g_RawCtrl1Reg h ! rawId))]) s)"
proof -
  let ?s1 = "emits [EvTimerRead] s"
  have "wait_ends h d (intMask_of h rawId) (timer_now d (tick s)) (tick ?s1) k = Some e"
    using assms by simp
  from wait_loop_ends [OF this] show ?thesis
    by (simp add: WaitForRawMoveComplete_alt)
qed

lemma emits_intr [simp]:
  "emits evs (s\<lparr>intr_enabled := b\<rparr>) = (emits evs s)\<lparr>intr_enabled := b\<rparr>"
  by (simp add: emits_def)

lemma tick_intr [simp]: "tick (s\<lparr>intr_enabled := b\<rparr>) = tick s"
  by (simp add: tick_def)

lemma intr_restore: "intr_enabled s = b \<Longrightarrow> s\<lparr>intr_enabled := b\<rparr> = s"
  by (cases s) simp

lemma ucast_u16_u32_u16 [simp]: "(ucast (ucast (w :: u16) :: u32) :: u16) = w"
  by (rule bit_word_eqI) (auto simp: bit_ucast_iff dest: bit_imp_le_length)

lemma RawMove_alt:
  "RawMove h d rawId srcDest dst sz s =
     (case WaitForRawMoveComplete h d rawId
             ((emits [EvIntrDisable, RawMove_clear h rawId,
                      RawMove_issue h rawId srcDest dst sz, EvIntrEnable] s)
                \<lparr>intr_enabled := True\<rparr>) of
        None \<Rightarrow> None
      | Some (nbytes, s5) \<Rightarrow>
          Some (ucast nbytes,
                if intr_enabled s then s5
                else emits [EvIntrDisable] (s5\<lparr>intr_enabled := False\<rparr>)))"
  by (simp add: RawMove_def Let_def mrf_intr_enable_def mrf_write_def mrf_write_byte_def
        mrf_intr_disable_def emit_emits RawMove_clear_def RawMove_issue_def
      split: option.split)

lemma RawMove_ends:
  assumes "RawMove_wait h d rawId s k = Some e"
  shows "RawMove h d rawId srcDest dst sz s =
           Some (RawMove_nbytes h d rawId s k e,
                 emits (RawMove_events h d rawId srcDest dst sz s k e) s)"
proof -
  let ?pre = "[EvIntrDisable, RawMove_clear h rawId, RawMove_issue h rawId srcDest dst sz,
               EvIntrEnable]"
  let ?s4 = "(emits ?pre s)\<lparr>intr_enabled := True\<rparr>"
  let ?st = "timer_now d (tick s + 4)"
  let ?w = "wait_events h (intMask_of h rawId) ?st k e"
  have t4: "tick ?s4 = tick s + 4" by simp
  have "wait_ends h d (intMask_of h rawId) (timer_now d (tick ?s4)) (Suc (tick ?s4)) k = Some e"
    using assms unfolding t4 RawMove_wait_def by (simp add: eval_nat_numeral)
  from WaitForRawMoveComplete_ends [OF this]
  have w: "WaitForRawMoveComplete h d rawId ?s4 =
             Some (ucast (RawMove_nbytes h d rawId s k e),
                   emits ([EvTimerRead] @ ?w @ [EvRead (unat (g_RawCtrl1Reg h ! rawId))]) ?s4)"
    unfolding t4 RawMove_nbytes_def by (simp add: eval_nat_numeral ac_simps)
  show ?thesis
    unfolding RawMove_alt w
    by (cases "intr_enabled s") (simp_all add: RawMove_events_def intr_restore)
qed

lemma wait_loop_frame:
  assumes "WaitForRawMoveComplete_loop h d m st s = Some s'"
  shows "\<exists>evs. s' = emits evs s"
proof (rule WaitForRawMoveComplete_loop.raw_induct
         [where P = "\<lambda>h d m st s s'. \<exists>evs. s' = emits evs s", OF _ assms])
  fix loop and h :: hdr and d :: device and m st :: u32 and s s' :: raw_state
  assume IH: "\<And>h d m st s s'. loop h d m st s = Some s' \<Longrightarrow> \<exists>evs. s' = emits evs s"
    and body: "(case mrf_read_byte d (MRF24_REG_INTR h) s of
      (intr, s1) \<Rightarrow>
        if ucast intr AND m \<noteq> 0
        then Some
              (mrf_write_byte (MRF24_REG_INTR h) (unat m)
                (if m = word_of_nat (INTR_INT2 h)
                 then mrf_write (MRF24_REG_INTR2 h)
                       (INTR2_RAW2 h OR
                        INTR2_RAW3 h OR INTR2_RAW4 h OR INTR2_RAW5 h)
                       s1
                 else s1))
        else case mrf_timer_elapsed d st s1 of
             (el, s2) \<Rightarrow>
               if 20 < el
               then Some
                     (printf ''--- %s: timeout waiting for interrupt''
                       ''WaitForRawMoveComplete'' [] s2)
               else loop h d m st (udelay 10 s2)) = Some s'"
  show "\<exists>evs. s' = emits evs s"
  proof (cases "poll_hit h d m (tick s)")
    case True
    with body show ?thesis
      by (auto simp: poll_hit_def mrf_read_byte_def mrf_write_byte_def mrf_write_def emit_emits
            split: if_splits)
  next
    case False
    show ?thesis
    proof (cases "poll_late d st (tick s)")
      case True
      with False body show ?thesis
        by (auto simp: poll_hit_def poll_late_def mrf_read_byte_def mrf_timer_elapsed_def
              printf_def emit_emits)
    next
      case nl: False
      with False body
      have "loop h d m st (emits [EvReadByte (MRF24_REG_INTR h), EvTimerElapsed (unat st), EvUdelay 10] s) = Some s'"
        by (simp add: poll_hit_def poll_late_def mrf_read_byte_def mrf_timer_elapsed_def
              udelay_def emit_emits)
      from IH [OF this] show ?thesis by auto
    qed
  qed
qed

lemma RawMove_frame:
  assumes "RawMove h d rawId srcDest dst sz s = Some (n, s')"
  shows "\<exists>evs. s' = emits evs s"
proof -
  let ?s4 = "(emits [EvIntrDisable, RawMove_clear h rawId,
                      RawMove_issue h rawId srcDest dst sz, EvIntrEnable] s)
                \<lparr>intr_enabled := True\<rparr>"
  from assms obtain s2 where
    l: "WaitForRawMoveComplete_loop h d (intMask_of h rawId) (timer_now d (tick ?s4))
          (emits [EvTimerRead] ?s4) = Some s2"
    and s': "s' = (if intr_enabled s then emits [EvRead (unat (g_RawCtrl1Reg h ! rawId))] s2
                   else emits [EvIntrDisable]
                          ((emits [EvRead (unat (g_RawCtrl1Reg h ! rawId))] s2)\<lparr>intr_enabled := False\<rparr>))"
    unfolding RawMove_alt WaitForRawMoveComplete_alt
    by (auto split: option.splits)
  from wait_loop_frame [OF l] obtain evs where s2: "s2 = emits evs (emits [EvTimerRead] ?s4)"
    by blast
  show ?thesis
  proof (cases "intr_enabled s")
    case True
    then have "s' = emits ([EvIntrDisable, RawMove_clear h rawId,
                      RawMove_issue h rawId srcDest dst sz, EvIntrEnable, EvTimerRead] @ evs
                      @ [EvRead (unat (g_RawCtrl1Reg h ! rawId))]) s"
      unfolding s' s2 by (simp add: intr_restore)
    then show ?thesis by blast
  next
    case False
    then have "s' = emits ([EvIntrDisable, RawMove_clear h rawId,
                      RawMove_issue h rawId srcDest dst sz, EvIntrEnable, EvTimerRead] @ evs
                      @ [EvRead (unat (g_RawCtrl1Reg h ! rawId)), EvIntrDisable]) s"
      unfolding s' s2 by (simp add: intr_restore)
    then show ?thesis by blast
  qed
qed

lemma flag_emits [simp]:
  "SetIndexOutOfBoundsFlag w (emits evs s) = emits evs (SetIndexOutOfBoundsFlag w s)"
  "ClearIndexOutOfBoundsFlag w (emits evs s) = emits evs (ClearIndexOutOfBoundsFlag w s)"
  "index_flag w e (emits evs s) = emits evs (index_flag w e s)"
  "isIndexOutOfBounds w (emits evs s) = isIndexOutOfBounds w s"
  by (simp_all add: SetIndexOutOfBoundsFlag_def ClearIndexOutOfBoundsFlag_def emits_def
        index_flag_def isIndexOutOfBounds_def split: wait_end.split)

lemma index_loop_ends:
  "index_ends d regId st (tick s) k = Some e \<Longrightarrow>
   RawSetIndex_loop d rawId regId index st s =
     Some (emits (index_events regId index st k e) (index_flag rawId e s))"
proof (induction k arbitrary: s)
  case 0
  show ?case
  proof (cases e)
    case Completed
    with 0 have "index_ready d regId (tick s)"
      by (simp split: if_splits)
    then show ?thesis unfolding Completed
      by (subst RawSetIndex_loop.simps)
         (simp add: index_ready_def mrf_read_def emit_emits index_flag_def)
  next
    case TimedOut
    with 0 have "\<not> index_ready d regId (tick s)" "index_late d st (tick s)"
      by (simp_all split: if_splits)
    then show ?thesis unfolding TimedOut
      by (subst RawSetIndex_loop.simps)
         (simp add: index_ready_def index_late_def mrf_read_def mrf_timer_elapsed_def
            printf_def emit_emits index_flag_def)
  qed
next
  case (Suc k)
  let ?s' = "emits [EvRead regId, EvTimerElapsed (unat st), EvUdelay 10] s"
  from Suc.prems have nh: "\<not> index_ready d regId (tick s)" and nl: "\<not> index_late d st (tick s)"
    and rest: "index_ends d regId st (tick ?s') k = Some e"
    by (simp_all add: eval_nat_numeral split: if_splits)
  have step: "RawSetIndex_loop d rawId regId index st s = RawSetIndex_loop d rawId regId index st ?s'"
    using nh nl
    by (subst RawSetIndex_loop.simps)
       (simp add: index_ready_def index_late_def mrf_read_def mrf_timer_elapsed_def udelay_def
          emit_emits)
  from Suc.IH [OF rest] step show ?case by simp
qed

lemma RawSetIndex_alt:
  "RawSetIndex h d rawId index s =
     RawSetIndex_loop d rawId (unat (g_RawStatusReg h ! rawId)) index (timer_now d (tick s + 1))
       (emits [EvWrite (unat (g_RawIndexReg h ! rawId)) (unat index), EvTimerRead] s)"
  by (simp add: RawSetIndex_def Let_def mrf_write_def mrf_timer_read_def emit_emits)

lemma RawSetIndex_ends:
  assumes "RawSetIndex_wait h d rawId s k = Some e"
  shows "RawSetIndex h d rawId index s =
           Some (emits (RawSetIndex_events h d rawId index s k e) (index_flag rawId e s))"
proof -
  let ?s2 = "emits [EvWrite (unat (g_RawIndexReg h ! rawId)) (unat index), EvTimerRead] s"
  have "index_ends d (unat (g_RawStatusReg h ! rawId)) (timer_now d (tick s + 1)) (tick ?s2) k = Some e"
    using assms by (simp add: RawSetIndex_wait_def eval_nat_numeral)
  from index_loop_ends [OF this] show ?thesis
    by (simp add: RawSetIndex_alt RawSetIndex_events_def)
qed

lemma mask_nth:
  "w < NUM_RAW_WINDOWS \<Longrightarrow> g_RawAccessOutOfBoundsMask ! w = push_bit w 1"
proof -
  assume "w < NUM_RAW_WINDOWS"
  then have "w \<in> {0, 1, 2, 3, 4, 5}"
    by (auto simp: NUM_RAW_WINDOWS_def)
  then show ?thesis
    by (auto simp: g_RawAccessOutOfBoundsMask_def)
qed

lemma bit_mask_nth:
  "w < NUM_RAW_WINDOWS \<Longrightarrow> bit (g_RawAccessOutOfBoundsMask ! w) n \<longleftrightarrow> n = w"
  by (auto simp: mask_nth bit_exp_iff possible_bit_word NUM_RAW_WINDOWS_def)

lemma isIndexOutOfBounds_bit:
  "w < NUM_RAW_WINDOWS \<Longrightarrow> isIndexOutOfBounds w s \<longleftrightarrow> bit (g_RawIndexPastEnd s) w"
proof -
  assume w: "w < NUM_RAW_WINDOWS"
  have "g_RawIndexPastEnd s AND g_RawAccessOutOfBoundsMask ! w \<noteq> 0 \<longleftrightarrow> bit (g_RawIndexPastEnd s) w"
    using w by (auto simp: bit_eq_iff [where ?'a = "8 word"] bit_and_iff bit_mask_nth [OF w]
                     NUM_RAW_WINDOWS_def)
  then show ?thesis
    by (simp add: isIndexOutOfBounds_def word_greater_zero_iff)
qed

lemma flag_after_set:
  "w < NUM_RAW_WINDOWS \<Longrightarrow> w' < NUM_RAW_WINDOWS \<Longrightarrow>
   isIndexOutOfBounds w' (SetIndexOutOfBoundsFlag w s) \<longleftrightarrow> w' = w \<or> isIndexOutOfBounds w' s"
  by (auto simp: isIndexOutOfBounds_bit SetIndexOutOfBoundsFlag_def bit_or_iff bit_mask_nth)

lemma flag_after_clear:
  "w < NUM_RAW_WINDOWS \<Longrightarrow> w' < NUM_RAW_WINDOWS \<Longrightarrow>
   isIndexOutOfBounds w' (ClearIndexOutOfBoundsFlag w s) \<longleftrightarrow> w' \<noteq> w \<and> isIndexOutOfBounds w' s"
  by (auto simp: isIndexOutOfBounds_bit ClearIndexOutOfBoundsFlag_def bit_and_iff bit_not_iff
        bit_mask_nth NUM_RAW_WINDOWS_def)

lemma flag_after_index:
  "w < NUM_RAW_WINDOWS \<Longrightarrow> w' < NUM_RAW_WINDOWS \<Longrightarrow>
   isIndexOutOfBounds w' (index_flag w e s) \<longleftrightarrow>
     (if w' = w then e = TimedOut else isIndexOutOfBounds w' s)"
  by (cases e) (auto simp: index_flag_def flag_after_set flag_after_clear)

lemma wait_events_no_intr:
  "EvIntrDisable \<notin> set (wait_events h m st k e) \<and> EvIntrEnable \<notin> set (wait_events h m st k e)"
  by (induction h m st k e rule: wait_events.induct) simp_all

lemma length_wait_events_TimedOut [simp]:
  "length (wait_events h m st k TimedOut) = 3 * k + 3"
  by (induction k) simp_all

lemma sample_wait_ready: "RawMove_wait sample_hdr chip_ready rawId s 0 = Some Completed"
  by (simp add: RawMove_wait_def poll_hit_def chip_ready_def sample_hdr_def intMask_of_def)

lemma wait_loop_complete:
  assumes "WaitForRawMoveComplete_loop h d m st s = Some s'"
  shows "\<exists>k e. wait_ends h d m st (tick s) k = Some e"
proof (rule WaitForRawMoveComplete_loop.raw_induct
         [where P = "\<lambda>h d m st s s'. \<exists>k e. wait_ends h d m st (tick s) k = Some e", OF _ assms])
  fix loop and h :: hdr and d :: device and m st :: u32 and s s' :: raw_state
  assume IH: "\<And>h d m st s s'. loop h d m st s = Some s' \<Longrightarrow>
                \<exists>k e. wait_ends h d m st (tick s) k = Some e"
    and body: "(case mrf_read_byte d (MRF24_REG_INTR h) s of
      (intr, s1) \<Rightarrow>
        if ucast intr AND m \<noteq> 0
        then Some
              (mrf_write_byte (MRF24_REG_INTR h) (unat m)
                (if m = word_of_nat (INTR_INT2 h)
                 then mrf_write (MRF24_REG_INTR2 h)
                       (INTR2_RAW2 h OR
                        INTR2_RAW3 h OR INTR2_RAW4 h OR INTR2_RAW5 h)
                       s1
                 else s1))
        else case mrf_timer_elapsed d st s1 of
             (el, s2) \<Rightarrow>
               if 20 < el
               then Some
                     (printf ''--- %s: timeout waiting for interrupt''
                       ''WaitForRawMoveComplete'' [] s2)
               else loop h d m st (udelay 10 s2)) = Some s'"
  show "\<exists>k e. wait_ends h d m st (tick s) k = Some e"
  proof (cases "poll_hit h d m (tick s) \<or> poll_late d st (tick s)")
    case True
    then have "\<exists>e. wait_ends h d m st (tick s) 0 = Some e"
      by auto
    then show ?thesis by blast
  next
    case False
    with body
    have "loop h d m st (emits [EvReadByte (MRF24_REG_INTR h), EvTimerElapsed (unat st), EvUdelay 10] s) = Some s'"
      by (simp add: poll_hit_def poll_late_def mrf_read_byte_def mrf_timer_elapsed_def
            udelay_def emit_emits)
    from IH [OF this] obtain k e where "wait_ends h d m st (tick s + 3) k = Some e"
      by (auto simp: eval_nat_numeral)
    with False have "wait_ends h d m st (tick s) (Suc k) = Some e"
      by simp
    then show ?thesis by blast
  qed
qed

lemma RawMove_returns:
  assumes "RawMove h d rawId srcDest dst sz s = Some (n, s')"
  shows "\<exists>k e. RawMove_wait h d rawId s k = Some e"
proof -
  let ?s4 = "(emits [EvIntrDisable, RawMove_clear h rawId,
                      RawMove_issue h rawId srcDest dst sz, EvIntrEnable] s)
                \<lparr>intr_enabled := True\<rparr>"
  from assms obtain s2 where
    "WaitForRawMoveComplete_loop h d (intMask_of h rawId) (timer_now d (tick ?s4))
          (emits [EvTimerRead] ?s4) = Some s2"
    unfolding RawMove_alt WaitForRawMoveComplete_alt
    by (auto split: option.splits)
  from wait_loop_complete [OF this] show ?thesis
    by (simp add: RawMove_wait_def eval_nat_numeral)
qed

lemma wait_events_TimedOut_nonempty: "wait_events h m st k TimedOut \<noteq> []"
  by (cases k) simp_all

lemma last_wait_events_TimedOut:
  "last (wait_events h m st k TimedOut) =
     EvPrintf ''--- %s: timeout waiting for interrupt'' ''WaitForRawMoveComplete'' []"
  by (induction k) (simp_all add: wait_events_TimedOut_nonempty)

lemma table_nth:
  assumes "rawId < NUM_RAW_WINDOWS"
  shows "g_RawIndexReg h ! rawId = of_nat (MRF24_REG_RAW_INDEX h rawId)"
    and "g_RawStatusReg h ! rawId = of_nat (MRF24_REG_RAW_STATUS h rawId)"
    and "g_RawCtrl0Reg h ! rawId = of_nat (MRF24_REG_RAW_CTRL0 h rawId)"
    and "g_RawCtrl1Reg h ! rawId = of_nat (MRF24_REG_RAW_CTRL1 h rawId)"
    and "g_RawDataReg h ! rawId = of_nat (MRF24_REG_RAW_DATA h rawId)"
  using assms
  by (simp_all add: g_RawIndexReg_def g_RawStatusReg_def g_RawCtrl0Reg_def g_RawCtrl1Reg_def
        g_RawDataReg_def del: upt_Suc)

lemma sample_wait_silent: "RawMove_wait sample_hdr chip_silent rawId s 0 = Some TimedOut"
  by (simp add: RawMove_wait_def poll_hit_def poll_late_def chip_silent_def)

lemma bit_0x8000: "bit (0x8000 :: u16) n \<longleftrightarrow> n = 15"
proof -
  have e: "(0x8000 :: u16) = 2 ^ 15" by simp
  show ?thesis
    apply (simp only: e bit_exp_iff)
    apply (auto simp: possible_bit_word)
    done
qed

lemma bit_0x0f: "bit (0x0f :: u16) n \<longleftrightarrow> n < 4"
proof -
  have e: "(0x0f :: u16) = mask 4" by (simp add: mask_eq_exp_minus_1)
  show ?thesis
    apply (simp only: e bit_mask_iff)
    apply (auto simp: possible_bit_word)
    done
qed

lemma bit_0xff: "bit (0xff :: u16) n \<longleftrightarrow> n < 8"
proof -
  have e: "(0xff :: u16) = mask 8" by (simp add: mask_eq_exp_minus_1)
  show ?thesis
    apply (simp only: e bit_mask_iff)
    apply (auto simp: possible_bit_word)
    done
qed

lemma bit_0x70: "bit (0x70 :: u16) n \<longleftrightarrow> 4 \<le> n \<and> n < 7"
proof -
  have e: "(0x70 :: u16) = push_bit 4 (mask 3)" by (simp add: mask_eq_exp_minus_1)
  show ?thesis
    apply (simp only: e bit_push_bit_iff bit_mask_iff)
    apply (auto simp: possible_bit_word)
    done
qed

lemma bit_0xFF8F: "bit (0xFF8F :: u16) n \<longleftrightarrow> n < 16 \<and> \<not> (4 \<le> n \<and> n < 7)"
proof -
  have e: "(0xFF8F :: u16) = NOT (push_bit 4 (mask 3))" by (simp add: mask_eq_exp_minus_1)
  show ?thesis
    apply (simp only: e bit_not_iff bit_push_bit_iff bit_mask_iff)
    apply (auto simp: possible_bit_word)
    done
qed

lemma bit_0x0f00: "bit (0x0f00 :: u16) n \<longleftrightarrow> 8 \<le> n \<and> n < 12"
proof -
  have e: "(0x0f00 :: u16) = push_bit 8 (mask 4)" by (simp add: mask_eq_exp_minus_1)
  show ?thesis
    apply (simp only: e bit_push_bit_iff bit_mask_iff)
    apply (auto simp: possible_bit_word)
    done
qed

lemma bit_RawMove_ctrlVal:
  "bit (RawMove_ctrlVal srcDest dst sz) n \<longleftrightarrow>
     n < 16 \<and> ((n = 15 \<and> dst) \<or> (8 \<le> n \<and> bit srcDest (n - 8))
               \<or> (8 \<le> n \<and> n < 12 \<and> bit sz n) \<or> (n < 8 \<and> bit sz n))"
  unfolding RawMove_ctrlVal_def
  by (auto simp: bit_or_iff bit_and_iff bit_push_bit_iff bit_drop_bit_eq bit_0x8000 bit_0x0f
        bit_0x0f00 bit_0xff possible_bit_word simp del: bit_numeral_word_iff dest: bit_imp_le_length)

lemma selector_bits:
  assumes "srcDest AND 0xFF8F = (0 :: u16)"
  shows "bit srcDest j \<Longrightarrow> 4 \<le> j \<and> j < 7"
proof -
  assume b: "bit srcDest j"
  from assms have "\<not> bit (srcDest AND 0xFF8F) j"
    by simp
  with b show ?thesis
    by (auto simp: bit_and_iff bit_0xFF8F simp del: bit_numeral_word_iff dest: bit_imp_le_length)
qed

lemma ctrlVal_fields:
  assumes "srcDest AND 0xFF8F = (0 :: u16)"
  shows "bit (RawMove_ctrlVal srcDest dst sz) 15 \<longleftrightarrow> dst"
    and "drop_bit 8 (RawMove_ctrlVal srcDest dst sz) AND 0x70 = srcDest"
    and "drop_bit 8 (RawMove_ctrlVal srcDest dst sz) AND 0x0f = drop_bit 8 sz AND 0x0f"
    and "RawMove_ctrlVal srcDest dst sz AND 0xff = sz AND 0xff"
proof -
  note sel = selector_bits [OF assms]
  show "bit (RawMove_ctrlVal srcDest dst sz) 15 \<longleftrightarrow> dst"
    using sel [of 7] by (auto simp: bit_RawMove_ctrlVal)
  show "drop_bit 8 (RawMove_ctrlVal srcDest dst sz) AND 0x70 = srcDest"
  proof (rule bit_word_eqI)
    fix n assume "n < LENGTH(16)"
    then show "bit (drop_bit 8 (RawMove_ctrlVal srcDest dst sz) AND 0x70) n = bit srcDest n"
      using sel [of n]
      by (auto simp: bit_and_iff bit_drop_bit_eq bit_RawMove_ctrlVal bit_0x70
            simp del: bit_numeral_word_iff)
  qed
  show "drop_bit 8 (RawMove_ctrlVal srcDest dst sz) AND 0x0f = drop_bit 8 sz AND 0x0f"
  proof (rule bit_word_eqI)
    fix n assume "n < LENGTH(16)"
    then show "bit (drop_bit 8 (RawMove_ctrlVal srcDest dst sz) AND 0x0f) n =
               bit (drop_bit 8 sz AND 0x0f) n"
      using sel [of n]
      by (auto simp: bit_and_iff bit_drop_bit_eq bit_RawMove_ctrlVal bit_0x0f
            simp del: bit_numeral_word_iff)
  qed
  show "RawMove_ctrlVal srcDest dst sz AND 0xff = sz AND 0xff"
  proof (rule bit_word_eqI)
    fix n assume "n < LENGTH(16)"
    then show "bit (RawMove_ctrlVal srcDest dst sz AND 0xff) n = bit (sz AND 0xff) n"
      by (auto simp: bit_and_iff bit_RawMove_ctrlVal bit_0xff simp del: bit_numeral_word_iff)
  qed
qed

lemma AllocateMgmtTxBuffer_alt:
  "AllocateMgmtTxBuffer h d n s =
     (if n \<le> mgmt_avail h d s then
        (case RawMove h d (RAW_MGMT_TX_ID h) (of_nat (RAW_MGMT_POOL h)) True n
                (emits [EvRead (MRF24_REG_WFIFO_BCNT1 h)] s) of
           None \<Rightarrow> None
         | Some (nbytes, s2) \<Rightarrow>
             if nbytes = 0 then Some (False, s2)
             else Some (True, ClearIndexOutOfBoundsFlag (RAW_MGMT_TX_ID h) s2))
      else if 0 < mgmt_avail h d s then
        (case RawMove h d (RAW_MGMT_RX_ID h) (of_nat (RAW_MGMT_POOL h)) False 0
                (emits [EvRead (MRF24_REG_WFIFO_BCNT1 h)] s) of
           None \<Rightarrow> None
         | Some (nbytes, s2) \<Rightarrow> Some (False, s2))
      else Some (False, emits [EvRead (MRF24_REG_WFIFO_BCNT1 h)] s))"
  by (simp add: AllocateMgmtTxBuffer_def mrf_read_def emit_emits mgmt_avail_def Let_def)

lemma AllocateDataTxBuffer_alt:
  "AllocateDataTxBuffer h d n s =
     (if data_avail h d s < n then Some (False, emits [EvRead (MRF24_REG_WFIFO_BCNT0 h)] s)
      else
        (case RawMove h d (RAW_DATA_TX_ID h) (of_nat (RAW_DATA_POOL h)) True n
                (emits [EvRead (MRF24_REG_WFIFO_BCNT0 h)] s) of
           None \<Rightarrow> None
         | Some (nbytes, s2) \<Rightarrow>
             if nbytes = 0
             then Some (False, emits [EvPrintf ''--- %s: failed'' ''AllocateDataTxBuffer'' []] s2)
             else Some (True,
                    SetRawDataWindowState (RAW_DATA_TX_ID h) (WF_RAW_DATA_MOUNTED h) s2)))"
  by (simp add: AllocateDataTxBuffer_def mrf_read_def emit_emits data_avail_def Let_def
        printf_def split: option.split)

lemma flag_fields [simp]:
  "trace (ClearIndexOutOfBoundsFlag w s) = trace s"
  "trace (SetIndexOutOfBoundsFlag w s) = trace s"
  "intr_enabled (ClearIndexOutOfBoundsFlag w s) = intr_enabled s"
  "intr_enabled (SetIndexOutOfBoundsFlag w s) = intr_enabled s"
  "RawWindowState (ClearIndexOutOfBoundsFlag w s) = RawWindowState s"
  "RawWindowState (SetIndexOutOfBoundsFlag w s) = RawWindowState s"
  "tick (ClearIndexOutOfBoundsFlag w s) = tick s"
  "tick (SetIndexOutOfBoundsFlag w s) = tick s"
  by (simp_all add: ClearIndexOutOfBoundsFlag_def SetIndexOutOfBoundsFlag_def tick_def)

lemma window_state_fields [simp]:
  "trace (SetRawDataWindowState w st s) = trace s"
  "intr_enabled (SetRawDataWindowState w st s) = intr_enabled s"
  "g_RawIndexPastEnd (SetRawDataWindowState w st s) = g_RawIndexPastEnd s"
  "tick (SetRawDataWindowState w st s) = tick s"
  "isIndexOutOfBounds w' (SetRawDataWindowState w st s) = isIndexOutOfBounds w' s"
  by (simp_all add: SetRawDataWindowState_def tick_def isIndexOutOfBounds_def)

lemma sample_nbytes_ready: "RawMove_nbytes h chip_ready rawId s k e = 100"
  by (simp add: RawMove_nbytes_def chip_ready_def)

lemma sample_mgmt_avail_ready: "mgmt_avail sample_hdr chip_ready s = 100"
  by (simp add: mgmt_avail_def chip_ready_def sample_hdr_def)

lemma RawMove_ctrlVal_release: "RawMove_ctrlVal p False 0 = push_bit 8 p"
  by (simp add: RawMove_ctrlVal_def)

lemma sample_mgmt_avail_short: "mgmt_avail sample_hdr chip_short s = 30"
  by (simp add: mgmt_avail_def chip_short_def sample_hdr_def)

lemma sample_wait_short: "RawMove_wait sample_hdr chip_short rawId s 0 = Some Completed"
  by (simp add: RawMove_wait_def poll_hit_def chip_short_def sample_hdr_def intMask_of_def)

lemma emits_window_state [simp]:
  "SetRawDataWindowState w st (emits evs s) = emits evs (SetRawDataWindowState w st s)"
  by (simp add: SetRawDataWindowState_def emits_def)

lemma Get_Set_window_state:
  "w < length (RawWindowState s) \<Longrightarrow>
   GetRawDataWindowState w (SetRawDataWindowState w st s) = of_nat st"
  by (simp add: GetRawDataWindowState_def SetRawDataWindowState_def)

lemma Get_emits [simp]: "GetRawDataWindowState w (emits evs s) = GetRawDataWindowState w s"
  by (simp add: GetRawDataWindowState_def)

lemma length_window_state_Set [simp]:
  "length (RawWindowState (SetRawDataWindowState w st s)) = length (RawWindowState s)"
  by (simp add: SetRawDataWindowState_def)

lemma DeallocateDataRxBuffer_ends:
  assumes "RawMove_wait h d (RAW_DATA_RX_ID h) s k = Some e"
  shows "DeallocateDataRxBuffer h d s =
           Some (emits (RawMove_events h d (RAW_DATA_RX_ID h) (of_nat (RAW_DATA_POOL h)) False 0
                          s k e)
                   (SetRawDataWindowState (RAW_DATA_RX_ID h) (WF_RAW_UNMOUNTED h) s))"
proof -
  let ?s0 = "SetRawDataWindowState (RAW_DATA_RX_ID h) (WF_RAW_UNMOUNTED h) s"
  have w: "RawMove_wait h d (RAW_DATA_RX_ID h) ?s0 k = Some e"
    using assms by (simp add: RawMove_wait_def)
  have ev: "RawMove_events h d (RAW_DATA_RX_ID h) (of_nat (RAW_DATA_POOL h)) False 0 ?s0 k e =
            RawMove_events h d (RAW_DATA_RX_ID h) (of_nat (RAW_DATA_POOL h)) False 0 s k e"
    by (simp add: RawMove_events_def)
  show ?thesis
    unfolding DeallocateDataRxBuffer_def RawMove_ends [OF w] ev by simp
qed

lemma sample_data_avail_ready: "data_avail sample_hdr chip_ready s = 100"
  by (simp add: data_avail_def chip_ready_def sample_hdr_def)

lemma RawMountRxBuffer_ends:
  assumes "RawMove_wait h d rawId s k = Some e"
  shows "RawMountRxBuffer h d rawId s =
           Some (RawMove_nbytes h d rawId s k e,
                 (if rawId = RAW_DATA_RX_ID h
                  then SetRawDataWindowState (RAW_DATA_RX_ID h) (WF_RAW_DATA_MOUNTED h)
                  else id)
                   (emits (RawMove_events h d rawId (of_nat (RAW_MAC h)) True 0 s k e
                           @ (if RawMove_nbytes h d rawId s k e = 0
                              then [EvPrintf ''--- %s: failed'' ''RawMountRxBuffer'' []]
                              else [])) s))"
  by (simp add: RawMountRxBuffer_def RawMove_ends [OF assms] Let_def printf_def emit_emits)

lemma sample_nbytes_silent: "RawMove_nbytes h chip_silent rawId s k e = 0"
  by (simp add: RawMove_nbytes_def chip_silent_def)

lemma unat_ucast_of_nat_small:
  "x < 256 \<Longrightarrow> unat (ucast (of_nat x :: u16) :: u8) = x"
  by transfer (simp add: take_bit_nat_eq_self take_bit_eq_mod)

lemma data_reg_small:
  assumes "rawId < NUM_RAW_WINDOWS" and "MRF24_REG_RAW_DATA h rawId < 256"
  shows "unat (ucast (g_RawDataReg h ! rawId) :: u8) = MRF24_REG_RAW_DATA h rawId"
proof -
  have "unat (ucast (of_nat (MRF24_REG_RAW_DATA h rawId) :: u16) :: u8) =
          MRF24_REG_RAW_DATA h rawId"
    using assms(2) by (rule unat_ucast_of_nat_small)
  then show ?thesis
    by (simp only: table_nth(5) [OF assms(1)])
qed

lemma index_loop_complete:
  assumes "RawSetIndex_loop d rawId regId index st s = Some s'"
  shows "\<exists>k e. index_ends d regId st (tick s) k = Some e"
proof (rule RawSetIndex_loop.raw_induct
         [where P = "\<lambda>d rawId regId index st s s'. \<exists>k e. index_ends d regId st (tick s) k = Some e",
          OF _ assms])
  fix loop and d :: device and rawId regId :: nat and index :: u16 and st :: u32
    and s s' :: raw_state
  assume IH: "\<And>d rawId regId index st s s'. loop d rawId regId index st s = Some s' \<Longrightarrow>
                \<exists>k e. index_ends d regId st (tick s) k = Some e"
    and body: "(case mrf_read d regId s of
      (regValue, s1) \<Rightarrow>
        if regValue AND WF_RAW_STATUS_REG_BUSY_MASK = 0
        then Some (ClearIndexOutOfBoundsFlag rawId s1)
        else case mrf_timer_elapsed d st s1 of
             (el, s2) \<Rightarrow>
               if 5 < el
               then Some
                     (printf ''--- %s: bad index=%u out of bounds'' ''RawSetIndex''
                       [unat index] (SetIndexOutOfBoundsFlag rawId s2))
               else loop d rawId regId index st (udelay 10 s2)) = Some s'"
  show "\<exists>k e. index_ends d regId st (tick s) k = Some e"
  proof (cases "index_ready d regId (tick s) \<or> index_late d st (tick s)")
    case True
    then have "\<exists>e. index_ends d regId st (tick s) 0 = Some e"
      by auto
    then show ?thesis by blast
  next
    case False
    with body
    have "loop d rawId regId index st
            (emits [EvRead regId, EvTimerElapsed (unat st), EvUdelay 10] s) = Some s'"
      by (simp add: index_ready_def index_late_def mrf_read_def mrf_timer_elapsed_def
            udelay_def emit_emits)
    from IH [OF this] obtain k e where "index_ends d regId st (tick s + 3) k = Some e"
      by (auto simp: eval_nat_numeral)
    with False have "index_ends d regId st (tick s) (Suc k) = Some e"
      by simp
    then show ?thesis by blast
  qed
qed

lemma RawSetIndex_returns:
  assumes "RawSetIndex h d rawId index s = Some s'"
  shows "\<exists>k e. RawSetIndex_wait h d rawId s k = Some e"
  using index_loop_complete [OF assms [unfolded RawSetIndex_alt]]
  by (simp add: RawSetIndex_wait_def eval_nat_numeral)

lemma RawSetIndex_cases:
  assumes "RawSetIndex h d rawId index s = Some s'"
  obtains k e where "RawSetIndex_wait h d rawId s k = Some e"
    and "s' = emits (RawSetIndex_events h d rawId index s k e) (index_flag rawId e s)"
proof -
  from RawSetIndex_returns [OF assms] obtain k e where w: "RawSetIndex_wait h d rawId s k = Some e"
    by blast
  from RawSetIndex_ends [OF w, of index] assms
  have "s' = emits (RawSetIndex_events h d rawId index s k e) (index_flag rawId e s)"
    by simp
  with w that show ?thesis by blast
qed

lemma RawSetIndex_flag:
  assumes "w < NUM_RAW_WINDOWS" and "w' < NUM_RAW_WINDOWS"
    and "RawSetIndex_wait h d w s k = Some e"
  shows "\<exists>s'. RawSetIndex h d w index s = Some s'
           \<and> (isIndexOutOfBounds w' s' \<longleftrightarrow>
                 (if w' = w then e = TimedOut else isIndexOutOfBounds w' s))"
  using RawSetIndex_ends [OF assms(3), of index] flag_after_index [OF assms(1,2), of e s]
  by simp

lemma RawSetIndex_other_flag:
  assumes "w < NUM_RAW_WINDOWS" and "w' < NUM_RAW_WINDOWS" and "w' \<noteq> w"
    and "RawSetIndex h d w index s = Some s'"
  shows "isIndexOutOfBounds w' s' = isIndexOutOfBounds w' s"
proof -
  from assms(4) obtain k e where
    "s' = emits (RawSetIndex_events h d w index s k e) (index_flag w e s)"
    by (rule RawSetIndex_cases)
  then show ?thesis
    using flag_after_index [OF assms(1,2), of e s] assms(3) by simp
qed

lemma RawMove_keeps_mask:
  assumes "RawMove h d rawId srcDest dst sz s = Some (n, s')"
  shows "g_RawIndexPastEnd s' = g_RawIndexPastEnd s"
  using RawMove_frame [OF assms] by auto

lemma byte_transfer_keeps_mask [simp]:
  "g_RawIndexPastEnd (RawSetByte h rawId buf len s) = g_RawIndexPastEnd s"
  "g_RawIndexPastEnd (snd (RawGetByte h d rawId len s)) = g_RawIndexPastEnd s"
  by (simp_all add: RawSetByte_def RawGetByte_def Let_def printf_def mrf_write_array_def
        mrf_read_array_def emit_emits)

lemma window_state_keeps_mask [simp]:
  "g_RawIndexPastEnd (SetRawDataWindowState w st s) = g_RawIndexPastEnd s"
  by (simp add: SetRawDataWindowState_def)

lemma AllocateMgmtTxBuffer_flag:
  assumes "w < NUM_RAW_WINDOWS" and "RAW_MGMT_TX_ID h < NUM_RAW_WINDOWS"
    and "AllocateMgmtTxBuffer h d n s = Some (ok, s')"
  shows "isIndexOutOfBounds w s' \<longleftrightarrow>
           \<not> (w = RAW_MGMT_TX_ID h \<and> ok) \<and> isIndexOutOfBounds w s"
proof (cases ok)
  case True
  with assms(3) obtain nb s2 where
    m: "RawMove h d (RAW_MGMT_TX_ID h) (of_nat (RAW_MGMT_POOL h)) True n
          (emits [EvRead (MRF24_REG_WFIFO_BCNT1 h)] s) = Some (nb, s2)"
    and s': "s' = ClearIndexOutOfBoundsFlag (RAW_MGMT_TX_ID h) s2"
    by (auto simp: AllocateMgmtTxBuffer_alt split: if_splits option.splits)
  from RawMove_keeps_mask [OF m] have "isIndexOutOfBounds w s2 = isIndexOutOfBounds w s"
    by (simp add: isIndexOutOfBounds_def)
  with True show ?thesis
    unfolding s' using flag_after_clear [OF assms(2,1), of s2] by auto
next
  case False
  with assms(3) have "g_RawIndexPastEnd s' = g_RawIndexPastEnd s"
    by (auto simp: AllocateMgmtTxBuffer_alt split: if_splits option.splits
          dest!: RawMove_keeps_mask)
  with False show ?thesis
    by (simp add: isIndexOutOfBounds_def)
qed

lemma exec_op_keeps_mask:
  assumes "exec_op h d x s = Some s'"
    and "index_window x = None"
    and "\<forall>n. x \<noteq> Op_AllocateMgmtTxBuffer n"
  shows "g_RawIndexPastEnd s' = g_RawIndexPastEnd s"
proof (cases x)
  case Op_RawInit
  with assms(1) show ?thesis
    by (auto simp: RawInit_def ScratchUnmount_def ScratchMount_def split: option.splits
          dest!: RawMove_keeps_mask)
next
  case (Op_ScratchMount rawId)
  with assms(1) show ?thesis
    by (auto simp: ScratchMount_def dest!: RawMove_keeps_mask)
next
  case (Op_ScratchUnmount rawId)
  with assms(1) show ?thesis
    by (auto simp: ScratchUnmount_def dest!: RawMove_keeps_mask)
next
  case (Op_AllocateMgmtTxBuffer n)
  with assms(3) show ?thesis by simp
next
  case Op_DeallocateMgmtRxBuffer
  with assms(1) show ?thesis
    by (auto simp: DeallocateMgmtRxBuffer_def dest!: RawMove_keeps_mask)
next
  case (Op_RawSetByte rawId buf len)
  with assms(1) show ?thesis by auto
next
  case (Op_RawGetByte rawId len)
  with assms(1) show ?thesis by auto
next
  case (Op_SendRAWManagementFrame n)
  with assms(1) show ?thesis
    by (auto simp: SendRAWManagementFrame_def dest!: RawMove_keeps_mask)
next
  case (Op_RawMountRxBuffer rawId)
  with assms(1) show ?thesis
    by (auto simp: RawMountRxBuffer_def Let_def printf_def emit_emits
          split: option.splits if_splits dest!: RawMove_keeps_mask)
next
  case (Op_RawRead rawId i len)
  with assms(2) show ?thesis by simp
next
  case (Op_RawWrite rawId i len buf)
  with assms(2) show ?thesis by simp
next
  case (Op_RawSetIndex rawId i)
  with assms(2) show ?thesis by simp
next
  case (Op_AllocateDataTxBuffer n)
  with assms(1) show ?thesis
    by (auto simp: AllocateDataTxBuffer_alt split: option.splits if_splits
          dest!: RawMove_keeps_mask)
next
  case Op_DeallocateDataRxBuffer
  with assms(1) show ?thesis
    by (auto simp: DeallocateDataRxBuffer_def dest!: RawMove_keeps_mask)
next
  case (Op_RawMove rawId srcDest dst sz)
  with assms(1) show ?thesis
    by (auto dest!: RawMove_keeps_mask)
next
  case (Op_SetRawDataWindowState rawId st)
  with assms(1) show ?thesis by auto
next
  case (Op_GetRawDataWindowState rawId)
  with assms(1) show ?thesis by auto
qed

lemma exec_op_index_flag:
  assumes "w < NUM_RAW_WINDOWS" and "op_ok x" and "index_window x = Some w'" and "w' \<noteq> w"
    and "exec_op h d x s = Some s'"
  shows "isIndexOutOfBounds w s' = isIndexOutOfBounds w s"
proof -
  from assms(2,3) have w': "w' < NUM_RAW_WINDOWS"
    by (simp add: op_ok_def)
  note other = RawSetIndex_other_flag [OF w' assms(1) assms(4) [symmetric]]
  show ?thesis
  proof (cases x)
    case (Op_RawSetIndex rawId i)
    with assms(3,5) show ?thesis
      by (auto dest: other)
  next
    case (Op_RawRead rawId i len)
    with assms(3,5) obtain s1 where "RawSetIndex h d w' i s = Some s1"
      and "s' = snd (RawGetByte h d w' len s1)"
      by (auto simp: RawRead_def)
    then show ?thesis
      using other [of h d i s s1] by (simp add: isIndexOutOfBounds_def)
  next
    case (Op_RawWrite rawId i len buf)
    with assms(3,5) obtain s1 where "RawSetIndex h d w' i s = Some s1"
      and "s' = RawSetByte h w' buf len s1"
      by (auto simp: RawWrite_def)
    then show ?thesis
      using other [of h d i s s1] by (simp add: isIndexOutOfBounds_def)
  qed (use assms(3) in simp_all)
qed

lemma exec_op_flag:
  assumes "w < NUM_RAW_WINDOWS" and "RAW_MGMT_TX_ID h < NUM_RAW_WINDOWS"
    and "op_ok x" and "\<not> sets_index w x"
    and "\<not> (w = RAW_MGMT_TX_ID h \<and> alloc_succeeds h d x s)"
    and "exec_op h d x s = Some s'"
  shows "isIndexOutOfBounds w s' = isIndexOutOfBounds w s"
proof (cases "index_window x")
  case (Some w')
  with assms(4) have "w' \<noteq> w"
    by (cases x) auto
  from exec_op_index_flag [OF assms(1,3) Some this assms(6)] show ?thesis .
next
  case None
  show ?thesis
  proof (cases "\<exists>n. x = Op_AllocateMgmtTxBuffer n")
    case True
    then obtain n where x: "x = Op_AllocateMgmtTxBuffer n" by blast
    with assms(6) obtain ok where r: "AllocateMgmtTxBuffer h d n s = Some (ok, s')"
      by auto
    with assms(5) x have "\<not> (w = RAW_MGMT_TX_ID h \<and> ok)"
      by auto
    with AllocateMgmtTxBuffer_flag [OF assms(1,2) r] show ?thesis
      by simp
  next
    case False
    with exec_op_keeps_mask [OF assms(6) None] show ?thesis
      by (simp add: isIndexOutOfBounds_def)
  qed
qed

lemma run_flag:
  assumes "w < NUM_RAW_WINDOWS" and "RAW_MGMT_TX_ID h < NUM_RAW_WINDOWS"
  shows "list_all op_ok xs \<Longrightarrow> untouched h d w xs s \<Longrightarrow> run h d xs s = Some s' \<Longrightarrow>
         isIndexOutOfBounds w s' = isIndexOutOfBounds w s"
proof (induction xs arbitrary: s)
  case Nil
  then show ?case by simp
next
  case (Cons x xs)
  from Cons.prems(3) obtain s1 where x: "exec_op h d x s = Some s1"
    and r: "run h d xs s1 = Some s'"
    by (auto split: option.splits)
  from Cons.prems(1) have ok: "op_ok x" and oks: "list_all op_ok xs"
    by simp_all
  from Cons.prems(2) x have nt: "\<not> sets_index w x"
    and na: "\<not> (w = RAW_MGMT_TX_ID h \<and> alloc_succeeds h d x s)"
    and rest: "untouched h d w xs s1"
    by simp_all
  from exec_op_flag [OF assms ok nt na x] Cons.IH [OF oks rest r]
  show ?case by simp
qed

lemma mask_disjoint:
  assumes "w < NUM_RAW_WINDOWS" and "w' < NUM_RAW_WINDOWS" and "w' \<noteq> w"
  shows "g_RawAccessOutOfBoundsMask ! w AND g_RawAccessOutOfBoundsMask ! w' = 0"
  using assms(3)
  by (auto simp: bit_eq_iff [where ?'a = "8 word"] bit_and_iff bit_mask_nth [OF assms(1)]
        bit_mask_nth [OF assms(2)])

lemma index_flag_mask:
  "w < NUM_RAW_WINDOWS \<Longrightarrow>
   g_RawIndexPastEnd (index_flag w e s) =
     (case e of Completed \<Rightarrow> g_RawIndexPastEnd s AND NOT (push_bit w 1)
              | TimedOut \<Rightarrow> g_RawIndexPastEnd s OR push_bit w 1)"
  by (simp add: index_flag_def ClearIndexOutOfBoundsFlag_def SetIndexOutOfBoundsFlag_def
        mask_nth split: wait_end.split)

lemma sample_index_past_end: "RawSetIndex_wait h chip_past_end w s 0 = Some TimedOut"
  by (simp add: RawSetIndex_wait_def index_ready_def index_late_def chip_past_end_def
        WF_RAW_STATUS_REG_BUSY_MASK_def)

lemma sample_index_ready: "RawSetIndex_wait h chip_ready w s 0 = Some Completed"
  by (simp add: RawSetIndex_wait_def index_ready_def chip_ready_def
        WF_RAW_STATUS_REG_BUSY_MASK_def)

lemma sample_windows: "(2::nat) < NUM_RAW_WINDOWS" "(3::nat) < NUM_RAW_WINDOWS"
  "RAW_MGMT_TX_ID sample_hdr < NUM_RAW_WINDOWS"
  by (simp_all add: NUM_RAW_WINDOWS_def sample_hdr_def)

lemma sample_wait_past_end: "RawMove_wait sample_hdr chip_past_end rawId s 0 = Some Completed"
  by (simp add: RawMove_wait_def poll_hit_def chip_past_end_def sample_hdr_def intMask_of_def)

lemma sample_nbytes_past_end: "RawMove_nbytes h chip_past_end rawId s k e = 0x0fff"
  by (simp add: RawMove_nbytes_def chip_past_end_def)

lemma sample_mgmt_avail_past_end: "mgmt_avail sample_hdr chip_past_end s = 0x0fff"
  by (simp add: mgmt_avail_def chip_past_end_def sample_hdr_def)

lemma sample_alloc_past_end:
  assumes "n \<le> 0x0fff"
  shows "AllocateMgmtTxBuffer sample_hdr chip_past_end n s =
           Some (True, ClearIndexOutOfBoundsFlag 3
                  (emits (RawMove_events sample_hdr chip_past_end 3 0x10 True n
                            (emits [EvRead 0x31] s) 0 Completed)
                     (emits [EvRead 0x31] s)))"
proof -
  have ids: "RAW_MGMT_TX_ID sample_hdr = 3" "(of_nat (RAW_MGMT_POOL sample_hdr) :: u16) = 0x10"
    "MRF24_REG_WFIFO_BCNT1 sample_hdr = 0x31"
    by (simp_all add: sample_hdr_def)
  show ?thesis
    using assms
    by (simp add: AllocateMgmtTxBuffer_alt ids sample_mgmt_avail_past_end
          RawMove_ends [OF sample_wait_past_end] sample_nbytes_past_end
        del: emits_emits flag_emits)
qed

lemma sample_index_run_past_end:
  "RawSetIndex sample_hdr chip_past_end w index s =
     Some (emits (RawSetIndex_events sample_hdr chip_past_end w index s 0 TimedOut)
             (SetIndexOutOfBoundsFlag w s))"
  using RawSetIndex_ends [OF sample_index_past_end, where h = sample_hdr and rawId = w and s = s
          and index = index]
  by (simp add: index_flag_def)

lemma sample_dealloc_past_end:
  "exec_op sample_hdr chip_past_end Op_DeallocateMgmtRxBuffer s =
     Some (emits (RawMove_events sample_hdr chip_past_end 2 0x10 False 0 s 0 Completed) s)"
proof -
  have ids: "RAW_MGMT_RX_ID sample_hdr = 2" "(of_nat (RAW_MGMT_POOL sample_hdr) :: u16) = 0x10"
    by (simp_all add: sample_hdr_def)
  show ?thesis
    by (simp add: DeallocateMgmtRxBuffer_def ids RawMove_ends [OF sample_wait_past_end])
qed

lemma RawRead_flag:
  assumes "w < NUM_RAW_WINDOWS" and "RawSetIndex_wait h d w s k = Some e"
  shows "\<exists>r s2. RawRead h d w index len s = Some (r, s2)
           \<and> (isIndexOutOfBounds w s2 \<longleftrightarrow> e = TimedOut)"
proof -
  from RawSetIndex_flag [OF assms(1) assms(1) assms(2), of index]
  obtain s1 where r: "RawSetIndex h d w index s = Some s1"
    and f: "isIndexOutOfBounds w s1 \<longleftrightarrow> e = TimedOut"
    by auto
  have "RawRead h d w index len s = Some (RawGetByte h d w len s1)"
    by (simp add: RawRead_def r)
  moreover have "isIndexOutOfBounds w (snd (RawGetByte h d w len s1)) \<longleftrightarrow> e = TimedOut"
    using f by (simp add: isIndexOutOfBounds_def)
  ultimately show ?thesis
    by (metis prod.collapse)
qed

lemma RawWrite_flag:
  assumes "w < NUM_RAW_WINDOWS" and "RawSetIndex_wait h d w s k = Some e"
  shows "\<exists>s3. RawWrite h d w index len buf s = Some s3
           \<and> (isIndexOutOfBounds w s3 \<longleftrightarrow> e = TimedOut)"
proof -
  from RawSetIndex_flag [OF assms(1) assms(1) assms(2), of index]
  obtain s1 where r: "RawSetIndex h d w index s = Some s1"
    and f: "isIndexOutOfBounds w s1 \<longleftrightarrow> e = TimedOut"
    by auto
  have "RawWrite h d w index len buf s = Some (RawSetByte h w buf len s1)"
    by (simp add: RawWrite_def r)
  moreover have "isIndexOutOfBounds w (RawSetByte h w buf len s1) \<longleftrightarrow> e = TimedOut"
    using f by (simp add: isIndexOutOfBounds_def)
  ultimately show ?thesis
    by blast
qed

lemma sample_exec_index_past_end:
  "exec_op sample_hdr chip_past_end (Op_RawSetIndex w index) s =
     Some (emits (RawSetIndex_events sample_hdr chip_past_end w index s 0 TimedOut)
             (SetIndexOutOfBoundsFlag w s))"
  by (simp add: sample_index_run_past_end)

lemma sample_exec_alloc_past_end:
  "n \<le> 0x0fff \<Longrightarrow>
   exec_op sample_hdr chip_past_end (Op_AllocateMgmtTxBuffer n) s =
     Some (ClearIndexOutOfBoundsFlag 3
            (emits (RawMove_events sample_hdr chip_past_end 3 0x10 True n
                      (emits [EvRead 0x31] s) 0 Completed)
               (emits [EvRead 0x31] s)))"
  by (simp add: sample_alloc_past_end del: emits_emits flag_emits)

section \<open>Properties of the driver\<close>

text \<open>
  C4. Whatever the interrupt-enable state at entry, \<open>RawMove\<close> returns with the same
  state: it disables the interrupt first, enables it before the wait (the wait itself
  touches neither), and disables it again at exit exactly when it was disabled at entry.
  The first part holds of every return; the second gives the return and the whole trace
  of a call whose wait ends at some poll.
\<close>

theorem RawMove_restores_interrupt_state:
  "(RawMove h d rawId srcDest dst sz s = Some (n, s') \<longrightarrow> intr_enabled s' = intr_enabled s)
   \<and> (RawMove_wait h d rawId s k = Some e \<longrightarrow>
        (\<exists>m s2. RawMove h d rawId srcDest dst sz s = Some (m, s2)
           \<and> intr_enabled s2 = intr_enabled s
           \<and> trace s2 =
               trace s
               @ [EvIntrDisable, RawMove_clear h rawId,
                  RawMove_issue h rawId srcDest dst sz, EvIntrEnable, EvTimerRead]
               @ wait_events h (intMask_of h rawId) (timer_now d (tick s + 4)) k e
               @ [EvRead (unat (g_RawCtrl1Reg h ! rawId))]
               @ (if intr_enabled s then [] else [EvIntrDisable])
           \<and> EvIntrDisable \<notin> set (wait_events h (intMask_of h rawId) (timer_now d (tick s + 4)) k e)
           \<and> EvIntrEnable \<notin> set (wait_events h (intMask_of h rawId) (timer_now d (tick s + 4)) k e)))"
proof (intro conjI impI)
  assume "RawMove h d rawId srcDest dst sz s = Some (n, s')"
  from RawMove_frame [OF this] show "intr_enabled s' = intr_enabled s"
    by auto
next
  assume "RawMove_wait h d rawId s k = Some e"
  from RawMove_ends [OF this, of srcDest dst sz]
    wait_events_no_intr [of h "intMask_of h rawId" "timer_now d (tick s + 4)" k e]
  show "\<exists>m s2. RawMove h d rawId srcDest dst sz s = Some (m, s2)
           \<and> intr_enabled s2 = intr_enabled s
           \<and> trace s2 =
               trace s
               @ [EvIntrDisable, RawMove_clear h rawId,
                  RawMove_issue h rawId srcDest dst sz, EvIntrEnable, EvTimerRead]
               @ wait_events h (intMask_of h rawId) (timer_now d (tick s + 4)) k e
               @ [EvRead (unat (g_RawCtrl1Reg h ! rawId))]
               @ (if intr_enabled s then [] else [EvIntrDisable])
           \<and> EvIntrDisable \<notin> set (wait_events h (intMask_of h rawId) (timer_now d (tick s + 4)) k e)
           \<and> EvIntrEnable \<notin> set (wait_events h (intMask_of h rawId) (timer_now d (tick s + 4)) k e)"
    by (simp add: RawMove_events_def)
qed

theorem RawMove_restores_interrupt_state_witness:
  "(\<exists>n s'. RawMove sample_hdr chip_ready 3 0x10 True 50 boot_state = Some (n, s')
       \<and> intr_enabled s' = True)
   \<and> (\<exists>n s'. RawMove sample_hdr chip_ready 3 0x10 True 50 (boot_state\<lparr>intr_enabled := False\<rparr>)
                 = Some (n, s')
       \<and> intr_enabled s' = False)"
proof -
  have on: "intr_enabled boot_state = True"
    by (simp add: boot_state_def)
  have a: "RawMove_wait sample_hdr chip_ready 3 boot_state 0 = Some Completed"
    by (rule sample_wait_ready)
  have b: "RawMove_wait sample_hdr chip_ready 3 (boot_state\<lparr>intr_enabled := False\<rparr>) 0
             = Some Completed"
    by (rule sample_wait_ready)
  from RawMove_restores_interrupt_state
         [of sample_hdr chip_ready 3 "0x10" True 50 boot_state _ _ 0 Completed,
          THEN conjunct2, rule_format, OF a]
  have "\<exists>n s'. RawMove sample_hdr chip_ready 3 0x10 True 50 boot_state = Some (n, s')
       \<and> intr_enabled s' = True"
    unfolding on by blast
  moreover
  from RawMove_restores_interrupt_state
         [of sample_hdr chip_ready 3 "0x10" True 50 "boot_state\<lparr>intr_enabled := False\<rparr>"
             _ _ 0 Completed, THEN conjunct2, rule_format, OF b]
  have "\<exists>n s'. RawMove sample_hdr chip_ready 3 0x10 True 50 (boot_state\<lparr>intr_enabled := False\<rparr>)
                 = Some (n, s') \<and> intr_enabled s' = False"
    by auto
  ultimately show ?thesis by blast
qed

text \<open>
  C6. When the move-complete interrupt is not seen at any poll and the timer passes 20
  at poll \<open>k\<close>, \<open>RawMove\<close> still returns: the wait logs its timeout diagnostic as its
  last event, the next primitive is the read of the window's \<open>CTRL1\<close> register, and
  what that read returns is the result of \<open>RawMove\<close>. Nothing but the trace changes.
\<close>

theorem RawMove_timeout_returns_byte_count:
  assumes "rawId < NUM_RAW_WINDOWS"
    and "RawMove_wait h d rawId s k = Some TimedOut"
  shows "\<exists>s'. RawMove h d rawId srcDest dst sz s =
                 Some (reg_word d (tick s + 3 * k + 8)
                         (unat (of_nat (MRF24_REG_RAW_CTRL1 h rawId) :: u16)), s')
           \<and> trace s' =
               trace s
               @ [EvIntrDisable, RawMove_clear h rawId,
                  RawMove_issue h rawId srcDest dst sz, EvIntrEnable, EvTimerRead]
               @ wait_events h (intMask_of h rawId) (timer_now d (tick s + 4)) k TimedOut
               @ [EvRead (unat (of_nat (MRF24_REG_RAW_CTRL1 h rawId) :: u16))]
               @ (if intr_enabled s then [] else [EvIntrDisable])
           \<and> last (wait_events h (intMask_of h rawId) (timer_now d (tick s + 4)) k TimedOut) =
               EvPrintf ''--- %s: timeout waiting for interrupt'' ''WaitForRawMoveComplete'' []
           \<and> length (wait_events h (intMask_of h rawId) (timer_now d (tick s + 4)) k TimedOut) =
               3 * k + 3
           \<and> g_RawIndexPastEnd s' = g_RawIndexPastEnd s
           \<and> RawWindowState s' = RawWindowState s
           \<and> intr_enabled s' = intr_enabled s"
proof -
  let ?w = "wait_events h (intMask_of h rawId) (timer_now d (tick s + 4)) k TimedOut"
  have reg: "g_RawCtrl1Reg h ! rawId = of_nat (MRF24_REG_RAW_CTRL1 h rawId)"
    by (rule table_nth(4) [OF assms(1)])
  have n: "RawMove_nbytes h d rawId s k TimedOut =
             reg_word d (tick s + 3 * k + 8) (unat (of_nat (MRF24_REG_RAW_CTRL1 h rawId) :: u16))"
  proof -
    have "tick s + 5 + length ?w = tick s + 3 * k + 8"
      by simp
    then show ?thesis
      by (simp only: RawMove_nbytes_def reg)
  qed
  have ev: "trace (emits (RawMove_events h d rawId srcDest dst sz s k TimedOut) s) =
              trace s
               @ [EvIntrDisable, RawMove_clear h rawId,
                  RawMove_issue h rawId srcDest dst sz, EvIntrEnable, EvTimerRead]
               @ ?w
               @ [EvRead (unat (of_nat (MRF24_REG_RAW_CTRL1 h rawId) :: u16))]
               @ (if intr_enabled s then [] else [EvIntrDisable])"
    by (simp add: RawMove_events_def reg)
  from RawMove_ends [OF assms(2), of srcDest dst sz]
  have "RawMove h d rawId srcDest dst sz s =
          Some (reg_word d (tick s + 3 * k + 8)
                  (unat (of_nat (MRF24_REG_RAW_CTRL1 h rawId) :: u16)),
                emits (RawMove_events h d rawId srcDest dst sz s k TimedOut) s)"
    by (simp only: n)
  then show ?thesis
    using ev
    by (intro exI [where x = "emits (RawMove_events h d rawId srcDest dst sz s k TimedOut) s"])
       (simp add: last_wait_events_TimedOut)
qed

theorem RawMove_timeout_returns_byte_count_witness:
  "\<exists>s'. RawMove sample_hdr chip_silent 0 0x00 True 0 boot_state = Some (0, s')
        \<and> EvPrintf ''--- %s: timeout waiting for interrupt'' ''WaitForRawMoveComplete'' []
             \<in> set (trace s')"
proof -
  have w: "(0::nat) < NUM_RAW_WINDOWS"
    by (simp add: NUM_RAW_WINDOWS_def)
  from RawMove_timeout_returns_byte_count
         [OF w sample_wait_silent, where s = boot_state and srcDest = "0x00" and dst = True
            and sz = 0]
  obtain s' where r: "RawMove sample_hdr chip_silent 0 0x00 True 0 boot_state =
       Some (reg_word chip_silent (tick boot_state + 3 * 0 + 8)
               (unat (of_nat (MRF24_REG_RAW_CTRL1 sample_hdr 0) :: u16)), s')"
    and tr: "trace s' =
               trace boot_state
               @ [EvIntrDisable, RawMove_clear sample_hdr 0,
                  RawMove_issue sample_hdr 0 0x00 True 0, EvIntrEnable, EvTimerRead]
               @ wait_events sample_hdr (intMask_of sample_hdr 0)
                   (timer_now chip_silent (tick boot_state + 4)) 0 TimedOut
               @ [EvRead (unat (of_nat (MRF24_REG_RAW_CTRL1 sample_hdr 0) :: u16))]
               @ (if intr_enabled boot_state then [] else [EvIntrDisable])"
    by blast
  have "reg_word chip_silent (tick boot_state + 3 * 0 + 8)
               (unat (of_nat (MRF24_REG_RAW_CTRL1 sample_hdr 0) :: u16)) = 0"
    by (simp add: chip_silent_def)
  with r tr show ?thesis
    by simp
qed

text \<open>
  C3. The control value of \<open>RawMove\<close>, bit by bit: bit 15 is the destination flag,
  bits 15 to 8 take the pool selector shifted up by eight, bits 11 to 8 take bits 11 to
  8 of the size and bits 7 to 0 its low byte, all or-ed together. For a pool selector
  that is one of the selectors "already shifted by 4 bits" (nothing outside bits 6 to 4)
  the fields do not overlap and can be read back. An allocation of 50 bytes from the
  management pool that finds 50 bytes available and gets a non-zero byte count returns
  true, and its control write has bit 15 set, size nibble 0 and low byte 50.
\<close>

theorem RawMove_control_value_layout:
  "(bit (RawMove_ctrlVal srcDest dst sz) n \<longleftrightarrow>
      n < 16 \<and> ((n = 15 \<and> dst) \<or> (8 \<le> n \<and> bit srcDest (n - 8))
               \<or> (8 \<le> n \<and> n < 12 \<and> bit sz n) \<or> (n < 8 \<and> bit sz n)))
   \<and> (srcDest AND 0xFF8F = 0 \<longrightarrow>
        (bit (RawMove_ctrlVal srcDest dst sz) 15 \<longleftrightarrow> dst)
        \<and> drop_bit 8 (RawMove_ctrlVal srcDest dst sz) AND 0x70 = srcDest
        \<and> drop_bit 8 (RawMove_ctrlVal srcDest dst sz) AND 0x0f = drop_bit 8 sz AND 0x0f
        \<and> RawMove_ctrlVal srcDest dst sz AND 0xff = sz AND 0xff)
   \<and> ((of_nat (RAW_MGMT_POOL h) :: u16) AND 0xFF8F = 0
        \<and> 50 \<le> mgmt_avail h d s
        \<and> RawMove_wait h d (RAW_MGMT_TX_ID h) (emits [EvRead (MRF24_REG_WFIFO_BCNT1 h)] s) k
              = Some e
        \<and> RawMove_nbytes h d (RAW_MGMT_TX_ID h) (emits [EvRead (MRF24_REG_WFIFO_BCNT1 h)] s) k e
              \<noteq> 0 \<longrightarrow>
        (\<exists>s' c. AllocateMgmtTxBuffer h d 50 s = Some (True, s')
           \<and> c = RawMove_ctrlVal (of_nat (RAW_MGMT_POOL h)) True 50
           \<and> trace s' =
               trace s
               @ [EvRead (MRF24_REG_WFIFO_BCNT1 h), EvIntrDisable,
                  RawMove_clear h (RAW_MGMT_TX_ID h),
                  EvWrite (unat (ucast (g_RawCtrl0Reg h ! RAW_MGMT_TX_ID h) :: u8)) (unat c),
                  EvIntrEnable, EvTimerRead]
               @ wait_events h (intMask_of h (RAW_MGMT_TX_ID h))
                   (timer_now d (tick s + 5)) k e
               @ [EvRead (unat (g_RawCtrl1Reg h ! RAW_MGMT_TX_ID h))]
               @ (if intr_enabled s then [] else [EvIntrDisable])
           \<and> bit c 15
           \<and> drop_bit 8 c AND 0x0f = 0
           \<and> c AND 0xff = 50))"
proof (intro conjI impI)
  show "bit (RawMove_ctrlVal srcDest dst sz) n \<longleftrightarrow>
      n < 16 \<and> ((n = 15 \<and> dst) \<or> (8 \<le> n \<and> bit srcDest (n - 8))
               \<or> (8 \<le> n \<and> n < 12 \<and> bit sz n) \<or> (n < 8 \<and> bit sz n))"
    by (rule bit_RawMove_ctrlVal)
next
  assume sel: "srcDest AND 0xFF8F = 0"
  show "bit (RawMove_ctrlVal srcDest dst sz) 15 \<longleftrightarrow> dst"
    by (rule ctrlVal_fields(1) [OF sel])
  show "drop_bit 8 (RawMove_ctrlVal srcDest dst sz) AND 0x70 = srcDest"
    by (rule ctrlVal_fields(2) [OF sel])
  show "drop_bit 8 (RawMove_ctrlVal srcDest dst sz) AND 0x0f = drop_bit 8 sz AND 0x0f"
    by (rule ctrlVal_fields(3) [OF sel])
  show "RawMove_ctrlVal srcDest dst sz AND 0xff = sz AND 0xff"
    by (rule ctrlVal_fields(4) [OF sel])
next
  let ?s1 = "emits [EvRead (MRF24_REG_WFIFO_BCNT1 h)] s"
  let ?c = "RawMove_ctrlVal (of_nat (RAW_MGMT_POOL h)) True 50"
  assume a: "(of_nat (RAW_MGMT_POOL h) :: u16) AND 0xFF8F = 0
        \<and> 50 \<le> mgmt_avail h d s
        \<and> RawMove_wait h d (RAW_MGMT_TX_ID h) ?s1 k = Some e
        \<and> RawMove_nbytes h d (RAW_MGMT_TX_ID h) ?s1 k e \<noteq> 0"
  then have sel: "(of_nat (RAW_MGMT_POOL h) :: u16) AND 0xFF8F = 0"
    and av: "50 \<le> mgmt_avail h d s"
    and w: "RawMove_wait h d (RAW_MGMT_TX_ID h) ?s1 k = Some e"
    and nz: "RawMove_nbytes h d (RAW_MGMT_TX_ID h) ?s1 k e \<noteq> 0"
    by simp_all
  let ?s' = "ClearIndexOutOfBoundsFlag (RAW_MGMT_TX_ID h)
               (emits (RawMove_events h d (RAW_MGMT_TX_ID h) (of_nat (RAW_MGMT_POOL h)) True 50
                          ?s1 k e) ?s1)"
  have r: "AllocateMgmtTxBuffer h d 50 s = Some (True, ?s')"
    using av nz
    by (simp add: AllocateMgmtTxBuffer_alt RawMove_ends [OF w] del: emits_emits)
  have t: "trace ?s' =
             trace s
               @ [EvRead (MRF24_REG_WFIFO_BCNT1 h), EvIntrDisable,
                  RawMove_clear h (RAW_MGMT_TX_ID h),
                  EvWrite (unat (ucast (g_RawCtrl0Reg h ! RAW_MGMT_TX_ID h) :: u8)) (unat ?c),
                  EvIntrEnable, EvTimerRead]
               @ wait_events h (intMask_of h (RAW_MGMT_TX_ID h))
                   (timer_now d (tick s + 5)) k e
               @ [EvRead (unat (g_RawCtrl1Reg h ! RAW_MGMT_TX_ID h))]
               @ (if intr_enabled s then [] else [EvIntrDisable])"
    by (simp add: RawMove_events_def RawMove_issue_def eval_nat_numeral)
  have b15: "bit ?c 15"
    using ctrlVal_fields(1) [OF sel, of True 50] by simp
  have hi: "drop_bit 8 ?c AND 0x0f = 0"
    using ctrlVal_fields(3) [OF sel, of True 50] by simp
  have lo: "?c AND 0xff = 50"
    using ctrlVal_fields(4) [OF sel, of True 50] by simp
  from r t b15 hi lo
  show "\<exists>s' c. AllocateMgmtTxBuffer h d 50 s = Some (True, s')
           \<and> c = RawMove_ctrlVal (of_nat (RAW_MGMT_POOL h)) True 50
           \<and> trace s' =
               trace s
               @ [EvRead (MRF24_REG_WFIFO_BCNT1 h), EvIntrDisable,
                  RawMove_clear h (RAW_MGMT_TX_ID h),
                  EvWrite (unat (ucast (g_RawCtrl0Reg h ! RAW_MGMT_TX_ID h) :: u8)) (unat c),
                  EvIntrEnable, EvTimerRead]
               @ wait_events h (intMask_of h (RAW_MGMT_TX_ID h))
                   (timer_now d (tick s + 5)) k e
               @ [EvRead (unat (g_RawCtrl1Reg h ! RAW_MGMT_TX_ID h))]
               @ (if intr_enabled s then [] else [EvIntrDisable])
           \<and> bit c 15
           \<and> drop_bit 8 c AND 0x0f = 0
           \<and> c AND 0xff = 50"
    by blast
qed

theorem RawMove_control_value_layout_witness:
  "(0x10 :: u16) AND 0xFF8F = 0
   \<and> RawMove_ctrlVal 0x10 True 50 = 0x9032
   \<and> drop_bit 8 (RawMove_ctrlVal 0x10 True 50) AND 0x70 = 0x10
   \<and> (\<exists>s'. AllocateMgmtTxBuffer sample_hdr chip_ready 50 boot_state = Some (True, s')
          \<and> EvWrite 0x1c 0x9032 \<in> set (trace s'))"
proof -
  have sel: "(0x10 :: u16) AND 0xFF8F = 0"
    by simp
  have c: "RawMove_ctrlVal 0x10 True 50 = 0x9032"
    by (simp add: RawMove_ctrlVal_def)
  have pool: "(of_nat (RAW_MGMT_POOL sample_hdr) :: u16) = 0x10"
    by (simp add: sample_hdr_def)
  have reg: "unat (ucast (g_RawCtrl0Reg sample_hdr ! RAW_MGMT_TX_ID sample_hdr) :: u8) = 0x1c"
    by (simp add: g_RawCtrl0Reg_def sample_hdr_def NUM_RAW_WINDOWS_def)
  have hyp: "(of_nat (RAW_MGMT_POOL sample_hdr) :: u16) AND 0xFF8F = 0
        \<and> 50 \<le> mgmt_avail sample_hdr chip_ready boot_state
        \<and> RawMove_wait sample_hdr chip_ready (RAW_MGMT_TX_ID sample_hdr)
              (emits [EvRead (MRF24_REG_WFIFO_BCNT1 sample_hdr)] boot_state) 0 = Some Completed
        \<and> RawMove_nbytes sample_hdr chip_ready (RAW_MGMT_TX_ID sample_hdr)
              (emits [EvRead (MRF24_REG_WFIFO_BCNT1 sample_hdr)] boot_state) 0 Completed \<noteq> 0"
    by (simp add: pool sample_wait_ready sample_nbytes_ready sample_mgmt_avail_ready)
  note lay = RawMove_control_value_layout
         [where srcDest = "0x10" and dst = True and sz = 50 and n = 15 and h = sample_hdr
            and d = chip_ready and s = boot_state and k = 0 and e = Completed]
  from lay [THEN conjunct2, THEN conjunct1, rule_format, OF sel]
  have f: "drop_bit 8 (RawMove_ctrlVal 0x10 True 50) AND 0x70 = 0x10"
    by simp
  from lay [THEN conjunct2, THEN conjunct2, rule_format, OF hyp]
  obtain s' where "AllocateMgmtTxBuffer sample_hdr chip_ready 50 boot_state = Some (True, s')"
    and "EvWrite (unat (ucast (g_RawCtrl0Reg sample_hdr ! RAW_MGMT_TX_ID sample_hdr) :: u8))
           (unat (RawMove_ctrlVal (of_nat (RAW_MGMT_POOL sample_hdr)) True 50)) \<in> set (trace s')"
    by auto
  then have "\<exists>s'. AllocateMgmtTxBuffer sample_hdr chip_ready 50 boot_state = Some (True, s')
          \<and> EvWrite 0x1c 0x9032 \<in> set (trace s')"
    unfolding reg pool c by auto
  with sel c f show ?thesis by blast
qed

text \<open>
  C1. When the management pool reports fewer bytes than requested,
  \<open>AllocateMgmtTxBuffer\<close> returns false. With nothing available it only reads the
  counter. With something available it makes exactly the call
  \<open>RawMove(RAW_MGMT_RX_ID, RAW_MGMT_POOL, 0, 0)\<close> and nothing else: it returns when
  that call does, and the trace is the counter read followed by the events of that one
  move, whose control value is the pool selector alone (destination bit clear, size 0).
  No move with the requested size is issued.
\<close>

theorem AllocateMgmtTxBuffer_insufficient:
  assumes "mgmt_avail h d s < n"
  shows "(mgmt_avail h d s = 0 \<longrightarrow>
            AllocateMgmtTxBuffer h d n s =
              Some (False, emits [EvRead (MRF24_REG_WFIFO_BCNT1 h)] s))
       \<and> (mgmt_avail h d s \<noteq> 0 \<longrightarrow>
            AllocateMgmtTxBuffer h d n s =
              map_option (\<lambda>r. (False, snd r))
                (RawMove h d (RAW_MGMT_RX_ID h) (of_nat (RAW_MGMT_POOL h)) False 0
                   (emits [EvRead (MRF24_REG_WFIFO_BCNT1 h)] s)))
       \<and> (mgmt_avail h d s \<noteq> 0
            \<and> RawMove_wait h d (RAW_MGMT_RX_ID h) (emits [EvRead (MRF24_REG_WFIFO_BCNT1 h)] s) k
                  = Some e \<longrightarrow>
            (\<exists>s'. AllocateMgmtTxBuffer h d n s = Some (False, s')
               \<and> trace s' =
                   trace s
                   @ [EvRead (MRF24_REG_WFIFO_BCNT1 h), EvIntrDisable,
                      RawMove_clear h (RAW_MGMT_RX_ID h),
                      EvWrite (unat (ucast (g_RawCtrl0Reg h ! RAW_MGMT_RX_ID h) :: u8))
                        (unat (push_bit 8 (of_nat (RAW_MGMT_POOL h) :: u16))),
                      EvIntrEnable, EvTimerRead]
                   @ wait_events h (intMask_of h (RAW_MGMT_RX_ID h))
                       (timer_now d (tick s + 5)) k e
                   @ [EvRead (unat (g_RawCtrl1Reg h ! RAW_MGMT_RX_ID h))]
                   @ (if intr_enabled s then [] else [EvIntrDisable])
               \<and> g_RawIndexPastEnd s' = g_RawIndexPastEnd s
               \<and> RawWindowState s' = RawWindowState s))
       \<and> (\<forall>ok s'. AllocateMgmtTxBuffer h d n s = Some (ok, s') \<longrightarrow> \<not> ok)"
proof -
  from assms have nle: "\<not> n \<le> mgmt_avail h d s"
    by (simp add: not_le)
  show ?thesis
proof (intro conjI impI allI)
  assume z: "mgmt_avail h d s = 0"
  have "AllocateMgmtTxBuffer h d n s =
          (if 0 < mgmt_avail h d s
           then (case RawMove h d (RAW_MGMT_RX_ID h) (of_nat (RAW_MGMT_POOL h)) False 0
                        (emits [EvRead (MRF24_REG_WFIFO_BCNT1 h)] s) of
                   None \<Rightarrow> None
                 | Some (nbytes, s2) \<Rightarrow> Some (False, s2))
           else Some (False, emits [EvRead (MRF24_REG_WFIFO_BCNT1 h)] s))"
    by (simp only: AllocateMgmtTxBuffer_alt nle if_False)
  then show "AllocateMgmtTxBuffer h d n s =
              Some (False, emits [EvRead (MRF24_REG_WFIFO_BCNT1 h)] s)"
    by (simp add: z)
next
  assume "mgmt_avail h d s \<noteq> 0"
  then have "0 < mgmt_avail h d s"
    by (simp add: word_greater_zero_iff)
  with nle show "AllocateMgmtTxBuffer h d n s =
              map_option (\<lambda>r. (False, snd r))
                (RawMove h d (RAW_MGMT_RX_ID h) (of_nat (RAW_MGMT_POOL h)) False 0
                   (emits [EvRead (MRF24_REG_WFIFO_BCNT1 h)] s))"
    by (simp add: AllocateMgmtTxBuffer_alt split: option.split)
next
  let ?s1 = "emits [EvRead (MRF24_REG_WFIFO_BCNT1 h)] s"
  assume a: "mgmt_avail h d s \<noteq> 0 \<and> RawMove_wait h d (RAW_MGMT_RX_ID h) ?s1 k = Some e"
  then have pos: "0 < mgmt_avail h d s"
    and w: "RawMove_wait h d (RAW_MGMT_RX_ID h) ?s1 k = Some e"
    by (simp_all add: word_greater_zero_iff)
  let ?s' = "emits (RawMove_events h d (RAW_MGMT_RX_ID h) (of_nat (RAW_MGMT_POOL h)) False 0
                      ?s1 k e) ?s1"
  have r: "AllocateMgmtTxBuffer h d n s = Some (False, ?s')"
    using nle pos
    by (simp add: AllocateMgmtTxBuffer_alt RawMove_ends [OF w] del: emits_emits)
  have t: "trace ?s' =
             trace s
               @ [EvRead (MRF24_REG_WFIFO_BCNT1 h), EvIntrDisable,
                  RawMove_clear h (RAW_MGMT_RX_ID h),
                  EvWrite (unat (ucast (g_RawCtrl0Reg h ! RAW_MGMT_RX_ID h) :: u8))
                    (unat (push_bit 8 (of_nat (RAW_MGMT_POOL h) :: u16))),
                  EvIntrEnable, EvTimerRead]
               @ wait_events h (intMask_of h (RAW_MGMT_RX_ID h))
                   (timer_now d (tick s + 5)) k e
               @ [EvRead (unat (g_RawCtrl1Reg h ! RAW_MGMT_RX_ID h))]
               @ (if intr_enabled s then [] else [EvIntrDisable])"
    by (simp add: RawMove_events_def RawMove_issue_def RawMove_ctrlVal_release eval_nat_numeral)
  from r t show "\<exists>s'. AllocateMgmtTxBuffer h d n s = Some (False, s')
               \<and> trace s' =
                   trace s
                   @ [EvRead (MRF24_REG_WFIFO_BCNT1 h), EvIntrDisable,
                      RawMove_clear h (RAW_MGMT_RX_ID h),
                      EvWrite (unat (ucast (g_RawCtrl0Reg h ! RAW_MGMT_RX_ID h) :: u8))
                        (unat (push_bit 8 (of_nat (RAW_MGMT_POOL h) :: u16))),
                      EvIntrEnable, EvTimerRead]
                   @ wait_events h (intMask_of h (RAW_MGMT_RX_ID h))
                       (timer_now d (tick s + 5)) k e
                   @ [EvRead (unat (g_RawCtrl1Reg h ! RAW_MGMT_RX_ID h))]
                   @ (if intr_enabled s then [] else [EvIntrDisable])
               \<and> g_RawIndexPastEnd s' = g_RawIndexPastEnd s
               \<and> RawWindowState s' = RawWindowState s"
    by (intro exI [where x = ?s']) (simp del: emits_emits)
next
  fix ok s'
  assume "AllocateMgmtTxBuffer h d n s = Some (ok, s')"
  with nle show "\<not> ok"
    by (auto simp: AllocateMgmtTxBuffer_alt split: if_splits option.splits)
qed
qed

theorem AllocateMgmtTxBuffer_insufficient_witness:
  "mgmt_avail sample_hdr chip_short boot_state < 50
   \<and> (\<exists>s'. AllocateMgmtTxBuffer sample_hdr chip_short 50 boot_state = Some (False, s')
          \<and> trace s' =
               [EvRead 0x31, EvIntrDisable, EvWrite 0x2d 0x10, EvWrite 0x18 0x1000,
                EvIntrEnable, EvTimerRead, EvReadByte 0x01, EvWrite 0x2d 0x3c,
                EvWriteByte 0x01 0x01, EvRead 0x19])"
proof -
  have lt: "mgmt_avail sample_hdr chip_short boot_state < 50"
    by (simp add: sample_mgmt_avail_short)
  have hyp: "mgmt_avail sample_hdr chip_short boot_state \<noteq> 0
     \<and> RawMove_wait sample_hdr chip_short (RAW_MGMT_RX_ID sample_hdr)
         (emits [EvRead (MRF24_REG_WFIFO_BCNT1 sample_hdr)] boot_state) 0 = Some Completed"
    by (simp add: sample_mgmt_avail_short sample_wait_short)
  from AllocateMgmtTxBuffer_insufficient [OF lt, where k = 0 and e = Completed,
         THEN conjunct2, THEN conjunct2, THEN conjunct1, rule_format, OF hyp]
  obtain s' where r: "AllocateMgmtTxBuffer sample_hdr chip_short 50 boot_state = Some (False, s')"
    and t: "trace s' =
                   trace boot_state
                   @ [EvRead (MRF24_REG_WFIFO_BCNT1 sample_hdr), EvIntrDisable,
                      RawMove_clear sample_hdr (RAW_MGMT_RX_ID sample_hdr),
                      EvWrite (unat (ucast (g_RawCtrl0Reg sample_hdr ! RAW_MGMT_RX_ID sample_hdr) :: u8))
                        (unat (push_bit 8 (of_nat (RAW_MGMT_POOL sample_hdr) :: u16))),
                      EvIntrEnable, EvTimerRead]
                   @ wait_events sample_hdr (intMask_of sample_hdr (RAW_MGMT_RX_ID sample_hdr))
                       (timer_now chip_short (tick boot_state + 5)) 0 Completed
                   @ [EvRead (unat (g_RawCtrl1Reg sample_hdr ! RAW_MGMT_RX_ID sample_hdr))]
                   @ (if intr_enabled boot_state then [] else [EvIntrDisable])"
    by blast
  have "trace s' =
               [EvRead 0x31, EvIntrDisable, EvWrite 0x2d 0x10, EvWrite 0x18 0x1000,
                EvIntrEnable, EvTimerRead, EvReadByte 0x01, EvWrite 0x2d 0x3c,
                EvWriteByte 0x01 0x01, EvRead 0x19]"
    unfolding t
    by (simp add: sample_hdr_def boot_state_def RawMove_clear_def g_RawIntMask_def
          g_RawCtrl0Reg_def g_RawCtrl1Reg_def NUM_RAW_WINDOWS_def intMask_of_def)
  with lt r show ?thesis by blast
qed

text \<open>
  C7. With the two-entry mount-state array and the data windows numbered below 2:
  whenever \<open>AllocateDataTxBuffer\<close> returns true the data Tx window reads MOUNTED,
  and it does return true when the pool has the bytes, the wait of the move ends and
  the byte count is not zero. Whenever \<open>DeallocateDataRxBuffer\<close> returns the data Rx
  window reads UNMOUNTED, whatever it read before, and it returns when the wait of its
  move ends.
\<close>

theorem data_window_mount_state:
  assumes "length (RawWindowState s) = 2"
    and "RAW_DATA_TX_ID h < 2" and "RAW_DATA_RX_ID h < 2"
  shows "(AllocateDataTxBuffer h d n s = Some (True, s') \<longrightarrow>
            GetRawDataWindowState (RAW_DATA_TX_ID h) s' = of_nat (WF_RAW_DATA_MOUNTED h))
       \<and> (n \<le> data_avail h d s
            \<and> RawMove_wait h d (RAW_DATA_TX_ID h) (emits [EvRead (MRF24_REG_WFIFO_BCNT0 h)] s) k
                  = Some e
            \<and> RawMove_nbytes h d (RAW_DATA_TX_ID h) (emits [EvRead (MRF24_REG_WFIFO_BCNT0 h)] s)
                  k e \<noteq> 0 \<longrightarrow>
            (\<exists>s2. AllocateDataTxBuffer h d n s = Some (True, s2)
               \<and> GetRawDataWindowState (RAW_DATA_TX_ID h) s2 = of_nat (WF_RAW_DATA_MOUNTED h)))
       \<and> (DeallocateDataRxBuffer h d s = Some s3 \<longrightarrow>
            GetRawDataWindowState (RAW_DATA_RX_ID h) s3 = of_nat (WF_RAW_UNMOUNTED h))
       \<and> (RawMove_wait h d (RAW_DATA_RX_ID h) s k' = Some e' \<longrightarrow>
            (\<exists>s4. DeallocateDataRxBuffer h d s = Some s4
               \<and> GetRawDataWindowState (RAW_DATA_RX_ID h) s4 = of_nat (WF_RAW_UNMOUNTED h)))"
proof (intro conjI impI)
  let ?s1 = "emits [EvRead (MRF24_REG_WFIFO_BCNT0 h)] s"
  assume r: "AllocateDataTxBuffer h d n s = Some (True, s')"
  then obtain nb s2 where
    m: "RawMove h d (RAW_DATA_TX_ID h) (of_nat (RAW_DATA_POOL h)) True n ?s1 = Some (nb, s2)"
    and s': "s' = SetRawDataWindowState (RAW_DATA_TX_ID h) (WF_RAW_DATA_MOUNTED h) s2"
    by (auto simp: AllocateDataTxBuffer_alt split: if_splits option.splits)
  from RawMove_frame [OF m] obtain evs where "s2 = emits evs ?s1"
    by blast
  with assms have "RAW_DATA_TX_ID h < length (RawWindowState s2)"
    by simp
  from Get_Set_window_state [OF this]
  show "GetRawDataWindowState (RAW_DATA_TX_ID h) s' = of_nat (WF_RAW_DATA_MOUNTED h)"
    by (simp add: s')
next
  let ?s1 = "emits [EvRead (MRF24_REG_WFIFO_BCNT0 h)] s"
  assume a: "n \<le> data_avail h d s
            \<and> RawMove_wait h d (RAW_DATA_TX_ID h) ?s1 k = Some e
            \<and> RawMove_nbytes h d (RAW_DATA_TX_ID h) ?s1 k e \<noteq> 0"
  then have av: "\<not> data_avail h d s < n"
    and w: "RawMove_wait h d (RAW_DATA_TX_ID h) ?s1 k = Some e"
    and nz: "RawMove_nbytes h d (RAW_DATA_TX_ID h) ?s1 k e \<noteq> 0"
    by (simp_all add: not_less)
  let ?s2 = "SetRawDataWindowState (RAW_DATA_TX_ID h) (WF_RAW_DATA_MOUNTED h)
               (emits (RawMove_events h d (RAW_DATA_TX_ID h) (of_nat (RAW_DATA_POOL h)) True n
                         ?s1 k e) ?s1)"
  have "AllocateDataTxBuffer h d n s = Some (True, ?s2)"
    using av nz
    by (simp add: AllocateDataTxBuffer_alt RawMove_ends [OF w] del: emits_emits emits_window_state)
  moreover have "GetRawDataWindowState (RAW_DATA_TX_ID h) ?s2 = of_nat (WF_RAW_DATA_MOUNTED h)"
    using assms by (intro Get_Set_window_state) simp
  ultimately show "\<exists>s2. AllocateDataTxBuffer h d n s = Some (True, s2)
               \<and> GetRawDataWindowState (RAW_DATA_TX_ID h) s2 = of_nat (WF_RAW_DATA_MOUNTED h)"
    by blast
next
  let ?s0 = "SetRawDataWindowState (RAW_DATA_RX_ID h) (WF_RAW_UNMOUNTED h) s"
  assume "DeallocateDataRxBuffer h d s = Some s3"
  then obtain nb where
    "RawMove h d (RAW_DATA_RX_ID h) (of_nat (RAW_DATA_POOL h)) False 0 ?s0 = Some (nb, s3)"
    by (auto simp: DeallocateDataRxBuffer_def)
  from RawMove_frame [OF this] obtain evs where "s3 = emits evs ?s0"
    by blast
  then show "GetRawDataWindowState (RAW_DATA_RX_ID h) s3 = of_nat (WF_RAW_UNMOUNTED h)"
    using assms by (simp add: Get_Set_window_state)
next
  assume "RawMove_wait h d (RAW_DATA_RX_ID h) s k' = Some e'"
  from DeallocateDataRxBuffer_ends [OF this]
  show "\<exists>s4. DeallocateDataRxBuffer h d s = Some s4
               \<and> GetRawDataWindowState (RAW_DATA_RX_ID h) s4 = of_nat (WF_RAW_UNMOUNTED h)"
    using assms by (simp add: Get_Set_window_state)
qed

theorem data_window_mount_state_witness:
  "(\<exists>s2. AllocateDataTxBuffer sample_hdr chip_ready 50 boot_state = Some (True, s2)
        \<and> GetRawDataWindowState 1 s2 = 1)
   \<and> (\<exists>s4. DeallocateDataRxBuffer sample_hdr chip_ready
               (boot_state\<lparr>RawWindowState := [1, 1]\<rparr>) = Some s4
        \<and> GetRawDataWindowState 0 s4 = 0)"
proof -
  have l1: "length (RawWindowState boot_state) = 2"
    by (simp add: boot_state_def)
  have l2: "length (RawWindowState (boot_state\<lparr>RawWindowState := [1, 1]\<rparr>)) = 2"
    by simp
  have tx: "RAW_DATA_TX_ID sample_hdr < 2" and rx: "RAW_DATA_RX_ID sample_hdr < 2"
    by (simp_all add: sample_hdr_def)
  have ids: "RAW_DATA_TX_ID sample_hdr = 1" "RAW_DATA_RX_ID sample_hdr = 0"
    "(of_nat (WF_RAW_DATA_MOUNTED sample_hdr) :: u8) = 1"
    "(of_nat (WF_RAW_UNMOUNTED sample_hdr) :: u8) = 0"
    by (simp_all add: sample_hdr_def)
  have hyp: "50 \<le> data_avail sample_hdr chip_ready boot_state
      \<and> RawMove_wait sample_hdr chip_ready (RAW_DATA_TX_ID sample_hdr)
           (emits [EvRead (MRF24_REG_WFIFO_BCNT0 sample_hdr)] boot_state) 0 = Some Completed
      \<and> RawMove_nbytes sample_hdr chip_ready (RAW_DATA_TX_ID sample_hdr)
           (emits [EvRead (MRF24_REG_WFIFO_BCNT0 sample_hdr)] boot_state) 0 Completed \<noteq> 0"
    by (simp add: sample_data_avail_ready sample_wait_ready sample_nbytes_ready)
  from data_window_mount_state [OF l1 tx rx, where d = chip_ready and n = 50 and k = 0
         and e = Completed, THEN conjunct2, THEN conjunct1, rule_format, OF hyp]
  have a: "\<exists>s2. AllocateDataTxBuffer sample_hdr chip_ready 50 boot_state = Some (True, s2)
        \<and> GetRawDataWindowState 1 s2 = 1"
    unfolding ids .
  from data_window_mount_state [OF l2 tx rx, where d = chip_ready and k' = 0
         and e' = Completed, THEN conjunct2, THEN conjunct2, THEN conjunct2, rule_format,
         OF sample_wait_ready]
  have b: "\<exists>s4. DeallocateDataRxBuffer sample_hdr chip_ready
               (boot_state\<lparr>RawWindowState := [1, 1]\<rparr>) = Some s4
        \<and> GetRawDataWindowState 0 s4 = 0"
    unfolding ids .
  from a b show ?thesis by blast
qed

text \<open>
  C9. \<open>RawMountRxBuffer\<close> on the data Rx window marks the window MOUNTED whatever
  length the move returns. A length of 0 only adds the diagnostic to the trace; the
  length is returned as it is and the window still reads MOUNTED.
\<close>

theorem RawMountRxBuffer_marks_mounted:
  assumes "length (RawWindowState s) = 2" and "RAW_DATA_RX_ID h < 2"
  shows "(RawMountRxBuffer h d (RAW_DATA_RX_ID h) s = Some (len, s') \<longrightarrow>
            GetRawDataWindowState (RAW_DATA_RX_ID h) s' = of_nat (WF_RAW_DATA_MOUNTED h))
       \<and> (RawMove_wait h d (RAW_DATA_RX_ID h) s k = Some e \<longrightarrow>
            (\<exists>s2. RawMountRxBuffer h d (RAW_DATA_RX_ID h) s =
                     Some (RawMove_nbytes h d (RAW_DATA_RX_ID h) s k e, s2)
               \<and> GetRawDataWindowState (RAW_DATA_RX_ID h) s2 = of_nat (WF_RAW_DATA_MOUNTED h)
               \<and> trace s2 =
                   trace s
                   @ RawMove_events h d (RAW_DATA_RX_ID h) (of_nat (RAW_MAC h)) True 0 s k e
                   @ (if RawMove_nbytes h d (RAW_DATA_RX_ID h) s k e = 0
                      then [EvPrintf ''--- %s: failed'' ''RawMountRxBuffer'' []]
                      else [])))"
proof (intro conjI impI)
  assume r: "RawMountRxBuffer h d (RAW_DATA_RX_ID h) s = Some (len, s')"
  then obtain s1 where
    m: "RawMove h d (RAW_DATA_RX_ID h) (of_nat (RAW_MAC h)) True 0 s = Some (len, s1)"
    by (auto simp: RawMountRxBuffer_def split: option.splits)
  from RawMove_returns [OF m] obtain k e where "RawMove_wait h d (RAW_DATA_RX_ID h) s k = Some e"
    by blast
  from RawMountRxBuffer_ends [OF this] r
  show "GetRawDataWindowState (RAW_DATA_RX_ID h) s' = of_nat (WF_RAW_DATA_MOUNTED h)"
    using assms by (auto simp: Get_Set_window_state)
next
  assume "RawMove_wait h d (RAW_DATA_RX_ID h) s k = Some e"
  from RawMountRxBuffer_ends [OF this]
  show "\<exists>s2. RawMountRxBuffer h d (RAW_DATA_RX_ID h) s =
                     Some (RawMove_nbytes h d (RAW_DATA_RX_ID h) s k e, s2)
               \<and> GetRawDataWindowState (RAW_DATA_RX_ID h) s2 = of_nat (WF_RAW_DATA_MOUNTED h)
               \<and> trace s2 =
                   trace s
                   @ RawMove_events h d (RAW_DATA_RX_ID h) (of_nat (RAW_MAC h)) True 0 s k e
                   @ (if RawMove_nbytes h d (RAW_DATA_RX_ID h) s k e = 0
                      then [EvPrintf ''--- %s: failed'' ''RawMountRxBuffer'' []]
                      else [])"
    using assms by (simp add: Get_Set_window_state)
qed

theorem RawMountRxBuffer_marks_mounted_witness:
  "\<exists>s2. RawMountRxBuffer sample_hdr chip_silent 0 boot_state = Some (0, s2)
        \<and> GetRawDataWindowState 0 s2 = 1
        \<and> last (trace s2) = EvPrintf ''--- %s: failed'' ''RawMountRxBuffer'' []"
proof -
  have l: "length (RawWindowState boot_state) = 2"
    by (simp add: boot_state_def)
  have rx: "RAW_DATA_RX_ID sample_hdr < 2"
    by (simp add: sample_hdr_def)
  have ids: "RAW_DATA_RX_ID sample_hdr = 0"
    "(of_nat (WF_RAW_DATA_MOUNTED sample_hdr) :: u8) = 1"
    by (simp_all add: sample_hdr_def)
  from RawMountRxBuffer_marks_mounted [OF l rx, where d = chip_silent and k = 0
         and e = TimedOut, THEN conjunct2, rule_format, OF sample_wait_silent]
  show ?thesis
    unfolding ids sample_nbytes_silent by auto
qed

text \<open>
  C8. \<open>RawSetByte\<close> and \<open>RawGetByte\<close> consult the out-of-bounds flag only to print:
  with the flag set the diagnostic is the first event, and in both cases the next and
  last event is the array transfer on the window's data register with the buffer and
  the length as given. \<open>RawGetByte\<close> hands back exactly \<open>length\<close> bytes, the ones the
  chip delivers at that transfer. The register is the window's \<open>DATA\<close> register itself
  whenever its number fits the 8-bit \<open>regId\<close>.
\<close>

theorem byte_transfer_despite_flag:
  "RawSetByte h rawId buf len s =
     emits ((if isIndexOutOfBounds rawId s
             then [EvPrintf ''--- %s: index out of bounds'' ''RawSetByte'' []] else [])
            @ [EvWriteArray (unat (ucast (g_RawDataReg h ! rawId) :: u8)) buf (unat len)]) s
   \<and> RawGetByte h d rawId len s =
       (map (reg_array d (tick s + (if isIndexOutOfBounds rawId s then 1 else 0))
               (unat (ucast (g_RawDataReg h ! rawId) :: u8))) [0..<unat len],
        emits ((if isIndexOutOfBounds rawId s
                then [EvPrintf ''--- %s: index out of bounds'' ''RawGetByte'' []] else [])
               @ [EvReadArray (unat (ucast (g_RawDataReg h ! rawId) :: u8)) (unat len)]) s)
   \<and> length (fst (RawGetByte h d rawId len s)) = unat len
   \<and> (rawId < NUM_RAW_WINDOWS \<and> MRF24_REG_RAW_DATA h rawId < 256 \<longrightarrow>
        unat (ucast (g_RawDataReg h ! rawId) :: u8) = MRF24_REG_RAW_DATA h rawId)"
proof (intro conjI impI)
  show "RawSetByte h rawId buf len s =
     emits ((if isIndexOutOfBounds rawId s
             then [EvPrintf ''--- %s: index out of bounds'' ''RawSetByte'' []] else [])
            @ [EvWriteArray (unat (ucast (g_RawDataReg h ! rawId) :: u8)) buf (unat len)]) s"
    by (simp add: RawSetByte_def Let_def printf_def mrf_write_array_def emit_emits)
  show g: "RawGetByte h d rawId len s =
       (map (reg_array d (tick s + (if isIndexOutOfBounds rawId s then 1 else 0))
               (unat (ucast (g_RawDataReg h ! rawId) :: u8))) [0..<unat len],
        emits ((if isIndexOutOfBounds rawId s
                then [EvPrintf ''--- %s: index out of bounds'' ''RawGetByte'' []] else [])
               @ [EvReadArray (unat (ucast (g_RawDataReg h ! rawId) :: u8)) (unat len)]) s)"
    by (simp add: RawGetByte_def Let_def printf_def mrf_read_array_def emit_emits)
  show "length (fst (RawGetByte h d rawId len s)) = unat len"
    unfolding g by simp
next
  assume "rawId < NUM_RAW_WINDOWS \<and> MRF24_REG_RAW_DATA h rawId < 256"
  then show "unat (ucast (g_RawDataReg h ! rawId) :: u8) = MRF24_REG_RAW_DATA h rawId"
    by (simp add: data_reg_small)
qed

theorem byte_transfer_despite_flag_witness:
  "isIndexOutOfBounds 3 (boot_state\<lparr>g_RawIndexPastEnd := 0x08\<rparr>)
   \<and> trace (RawSetByte sample_hdr 3 [1, 2, 3] 3 (boot_state\<lparr>g_RawIndexPastEnd := 0x08\<rparr>)) =
       [EvPrintf ''--- %s: index out of bounds'' ''RawSetByte'' [], EvWriteArray 0x07 [1, 2, 3] 3]
   \<and> trace (snd (RawGetByte sample_hdr chip_ready 3 3 (boot_state\<lparr>g_RawIndexPastEnd := 0x08\<rparr>))) =
       [EvPrintf ''--- %s: index out of bounds'' ''RawGetByte'' [], EvReadArray 0x07 3]
   \<and> length (fst (RawGetByte sample_hdr chip_ready 3 3 (boot_state\<lparr>g_RawIndexPastEnd := 0x08\<rparr>))) = 3"
proof -
  let ?s = "boot_state\<lparr>g_RawIndexPastEnd := 0x08\<rparr>"
  have f: "isIndexOutOfBounds 3 ?s"
    by (simp add: isIndexOutOfBounds_def g_RawAccessOutOfBoundsMask_def)
  have hyp: "(3::nat) < NUM_RAW_WINDOWS \<and> MRF24_REG_RAW_DATA sample_hdr 3 < 256"
    by (simp add: NUM_RAW_WINDOWS_def sample_hdr_def)
  note bt = byte_transfer_despite_flag
              [where h = sample_hdr and d = chip_ready and rawId = 3 and buf = "[1, 2, 3]"
                 and len = 3 and s = ?s]
  from bt [THEN conjunct2, THEN conjunct2, THEN conjunct2, rule_format, OF hyp]
  have reg: "unat (ucast (g_RawDataReg sample_hdr ! 3) :: u8) = 0x07"
    by (simp add: sample_hdr_def)
  from bt [THEN conjunct1] f
  have a: "trace (RawSetByte sample_hdr 3 [1, 2, 3] 3 ?s) =
       [EvPrintf ''--- %s: index out of bounds'' ''RawSetByte'' [], EvWriteArray 0x07 [1, 2, 3] 3]"
    by (simp add: reg boot_state_def)
  from bt [THEN conjunct2, THEN conjunct1] f
  have b: "trace (snd (RawGetByte sample_hdr chip_ready 3 3 ?s)) =
       [EvPrintf ''--- %s: index out of bounds'' ''RawGetByte'' [], EvReadArray 0x07 3]"
    by (simp add: reg boot_state_def)
  from bt [THEN conjunct2, THEN conjunct2, THEN conjunct1]
  have c: "length (fst (RawGetByte sample_hdr chip_ready 3 3 ?s)) = 3"
    by simp
  from f a b c show ?thesis by blast
qed

text \<open>
  C10. For two different windows of the table, \<open>RawSetIndex\<close> on one leaves the
  out-of-bounds flag of the other as it was, on every return; when its poll loop ends,
  cleanly or by timeout, it returns and the bitmask changes in the one bit of its own
  window only. The mask of window \<open>w\<close> is the single bit \<open>w\<close>, the masks of two
  windows share no bit, and the flag of a window is that bit of the bitmask.
\<close>

theorem RawSetIndex_leaves_other_flags:
  assumes "w < NUM_RAW_WINDOWS" and "w' < NUM_RAW_WINDOWS" and "w' \<noteq> w"
  shows "(RawSetIndex h d w index s = Some s' \<longrightarrow>
            isIndexOutOfBounds w' s' = isIndexOutOfBounds w' s)
       \<and> (RawSetIndex_wait h d w s k = Some e \<longrightarrow>
            (\<exists>s2. RawSetIndex h d w index s = Some s2
               \<and> isIndexOutOfBounds w' s2 = isIndexOutOfBounds w' s
               \<and> g_RawIndexPastEnd s2 =
                   (case e of Completed \<Rightarrow> g_RawIndexPastEnd s AND NOT (push_bit w 1)
                            | TimedOut \<Rightarrow> g_RawIndexPastEnd s OR push_bit w 1)))
       \<and> g_RawAccessOutOfBoundsMask ! w = push_bit w 1
       \<and> g_RawAccessOutOfBoundsMask ! w AND g_RawAccessOutOfBoundsMask ! w' = 0
       \<and> (isIndexOutOfBounds w' s \<longleftrightarrow> bit (g_RawIndexPastEnd s) w')"
proof (intro conjI impI)
  assume "RawSetIndex h d w index s = Some s'"
  from RawSetIndex_other_flag [OF assms this]
  show "isIndexOutOfBounds w' s' = isIndexOutOfBounds w' s" .
next
  assume wt: "RawSetIndex_wait h d w s k = Some e"
  let ?s2 = "emits (RawSetIndex_events h d w index s k e) (index_flag w e s)"
  have r: "RawSetIndex h d w index s = Some ?s2"
    by (rule RawSetIndex_ends [OF wt])
  from RawSetIndex_other_flag [OF assms r]
  have "isIndexOutOfBounds w' ?s2 = isIndexOutOfBounds w' s" .
  moreover have "g_RawIndexPastEnd ?s2 =
                   (case e of Completed \<Rightarrow> g_RawIndexPastEnd s AND NOT (push_bit w 1)
                            | TimedOut \<Rightarrow> g_RawIndexPastEnd s OR push_bit w 1)"
    by (simp add: index_flag_mask [OF assms(1)])
  ultimately show "\<exists>s2. RawSetIndex h d w index s = Some s2
               \<and> isIndexOutOfBounds w' s2 = isIndexOutOfBounds w' s
               \<and> g_RawIndexPastEnd s2 =
                   (case e of Completed \<Rightarrow> g_RawIndexPastEnd s AND NOT (push_bit w 1)
                            | TimedOut \<Rightarrow> g_RawIndexPastEnd s OR push_bit w 1)"
    using r by blast
next
  show "g_RawAccessOutOfBoundsMask ! w = push_bit w 1"
    by (rule mask_nth [OF assms(1)])
  show "g_RawAccessOutOfBoundsMask ! w AND g_RawAccessOutOfBoundsMask ! w' = 0"
    by (rule mask_disjoint [OF assms])
  show "isIndexOutOfBounds w' s \<longleftrightarrow> bit (g_RawIndexPastEnd s) w'"
    by (rule isIndexOutOfBounds_bit [OF assms(2)])
qed

theorem RawSetIndex_leaves_other_flags_witness:
  "(\<exists>s2. RawSetIndex sample_hdr chip_past_end 3 0 (boot_state\<lparr>g_RawIndexPastEnd := 0x04\<rparr>) = Some s2
        \<and> isIndexOutOfBounds 2 s2 \<and> g_RawIndexPastEnd s2 = 0x0c)
   \<and> (\<exists>s2. RawSetIndex sample_hdr chip_ready 3 0 (boot_state\<lparr>g_RawIndexPastEnd := 0x0c\<rparr>) = Some s2
        \<and> isIndexOutOfBounds 2 s2 \<and> g_RawIndexPastEnd s2 = 0x04)"
proof -
  have ne: "(2::nat) \<noteq> 3" by simp
  have f1: "isIndexOutOfBounds 2 (boot_state\<lparr>g_RawIndexPastEnd := 0x04\<rparr>)"
    and f2: "isIndexOutOfBounds 2 (boot_state\<lparr>g_RawIndexPastEnd := 0x0c\<rparr>)"
    by (simp_all add: isIndexOutOfBounds_def g_RawAccessOutOfBoundsMask_def)
  from RawSetIndex_leaves_other_flags
         [OF sample_windows(2) sample_windows(1) ne, where h = sample_hdr and d = chip_past_end
            and index = 0 and s = "boot_state\<lparr>g_RawIndexPastEnd := 0x04\<rparr>" and k = 0
            and e = TimedOut, THEN conjunct2, THEN conjunct1, rule_format,
          OF sample_index_past_end]
  have a: "\<exists>s2. RawSetIndex sample_hdr chip_past_end 3 0 (boot_state\<lparr>g_RawIndexPastEnd := 0x04\<rparr>) = Some s2
        \<and> isIndexOutOfBounds 2 s2 \<and> g_RawIndexPastEnd s2 = 0x0c"
    using f1 by simp
  from RawSetIndex_leaves_other_flags
         [OF sample_windows(2) sample_windows(1) ne, where h = sample_hdr and d = chip_ready
            and index = 0 and s = "boot_state\<lparr>g_RawIndexPastEnd := 0x0c\<rparr>" and k = 0
            and e = Completed, THEN conjunct2, THEN conjunct1, rule_format,
          OF sample_index_ready]
  have b: "\<exists>s2. RawSetIndex sample_hdr chip_ready 3 0 (boot_state\<lparr>g_RawIndexPastEnd := 0x0c\<rparr>) = Some s2
        \<and> isIndexOutOfBounds 2 s2 \<and> g_RawIndexPastEnd s2 = 0x04"
    using f2 by simp
  from a b show ?thesis by blast
qed

text \<open>
  C5, as stated, fails: on the management Tx window (window 3 of the sample header) an
  index-set that times out sets the flag, and the next successful
  \<open>AllocateMgmtTxBuffer\<close>, which is not an index-set, clears it.
\<close>

theorem RawSetIndex_flag_cleared_by_allocation:
  "RawSetIndex_wait sample_hdr chip_past_end 3 boot_state 0 = Some TimedOut
   \<and> map_option (isIndexOutOfBounds 3)
        (RawSetIndex sample_hdr chip_past_end 3 0x20 boot_state) = Some True
   \<and> map_option fst
        (Option.bind (RawSetIndex sample_hdr chip_past_end 3 0x20 boot_state)
           (AllocateMgmtTxBuffer sample_hdr chip_past_end 10)) = Some True
   \<and> map_option (isIndexOutOfBounds 3 \<circ> snd)
        (Option.bind (RawSetIndex sample_hdr chip_past_end 3 0x20 boot_state)
           (AllocateMgmtTxBuffer sample_hdr chip_past_end 10)) = Some False"
proof -
  have ten: "(10 :: u16) \<le> 0x0fff" by simp
  show ?thesis
    by (simp add: sample_index_past_end sample_index_run_past_end sample_alloc_past_end [OF ten]
          flag_after_set [OF sample_windows(2) sample_windows(2)]
          flag_after_clear [OF sample_windows(2) sample_windows(2)])
qed

text \<open>
  C5, amended. For a window of the table: when the poll loop of \<open>RawSetIndex\<close> sees
  the busy bit clear before the timer passes 5, the call returns with the flag of the
  window clear; when the timer passes 5 first, it returns with the flag set, and the
  flag is still set after any run of operations that contains no index-set on the
  window (\<open>RawSetIndex\<close>, \<open>RawRead\<close>, \<open>RawWrite\<close>) and, for the management Tx
  window, no \<open>AllocateMgmtTxBuffer\<close> that returns true.
\<close>

theorem RawSetIndex_flag_outcome:
  assumes "w < NUM_RAW_WINDOWS" and "RAW_MGMT_TX_ID h < NUM_RAW_WINDOWS"
  shows "(RawSetIndex_wait h d w s k = Some Completed \<longrightarrow>
            (\<exists>s1. RawSetIndex h d w index s = Some s1 \<and> \<not> isIndexOutOfBounds w s1))
       \<and> (RawSetIndex_wait h d w s k = Some TimedOut \<longrightarrow>
            (\<exists>s1. RawSetIndex h d w index s = Some s1 \<and> isIndexOutOfBounds w s1))
       \<and> (RawSetIndex_wait h d w s k = Some TimedOut
            \<and> RawSetIndex h d w index s = Some s'
            \<and> list_all op_ok xs \<and> untouched h d w xs s' \<and> run h d xs s' = Some s'' \<longrightarrow>
            isIndexOutOfBounds w s'')"
proof (intro conjI impI)
  assume "RawSetIndex_wait h d w s k = Some Completed"
  from RawSetIndex_flag [OF assms(1) assms(1) this, of index]
  show "\<exists>s1. RawSetIndex h d w index s = Some s1 \<and> \<not> isIndexOutOfBounds w s1"
    by simp
next
  assume "RawSetIndex_wait h d w s k = Some TimedOut"
  from RawSetIndex_flag [OF assms(1) assms(1) this, of index]
  show "\<exists>s1. RawSetIndex h d w index s = Some s1 \<and> isIndexOutOfBounds w s1"
    by simp
next
  assume a: "RawSetIndex_wait h d w s k = Some TimedOut
            \<and> RawSetIndex h d w index s = Some s'
            \<and> list_all op_ok xs \<and> untouched h d w xs s' \<and> run h d xs s' = Some s''"
  then have wt: "RawSetIndex_wait h d w s k = Some TimedOut"
    and r: "RawSetIndex h d w index s = Some s'"
    and ok: "list_all op_ok xs" and un: "untouched h d w xs s'"
    and rn: "run h d xs s' = Some s''"
    by simp_all
  from RawSetIndex_flag [OF assms(1) assms(1) wt, of index] r
  have "isIndexOutOfBounds w s'"
    by simp
  with run_flag [OF assms ok un rn] show "isIndexOutOfBounds w s''"
    by simp
qed

theorem RawSetIndex_flag_outcome_witness:
  "(\<exists>s1. RawSetIndex sample_hdr chip_ready 3 0 (boot_state\<lparr>g_RawIndexPastEnd := 0x08\<rparr>) = Some s1
        \<and> \<not> isIndexOutOfBounds 3 s1)
   \<and> (\<exists>s1 s2. RawSetIndex sample_hdr chip_past_end 3 0 boot_state = Some s1
        \<and> isIndexOutOfBounds 3 s1
        \<and> run sample_hdr chip_past_end [Op_DeallocateMgmtRxBuffer] s1 = Some s2
        \<and> isIndexOutOfBounds 3 s2)"
proof -
  note oc = RawSetIndex_flag_outcome [OF sample_windows(2) sample_windows(3)]
  from oc [where d = chip_ready and index = 0 and k = 0
             and s = "boot_state\<lparr>g_RawIndexPastEnd := 0x08\<rparr>",
           THEN conjunct1, rule_format, OF sample_index_ready]
  have a: "\<exists>s1. RawSetIndex sample_hdr chip_ready 3 0 (boot_state\<lparr>g_RawIndexPastEnd := 0x08\<rparr>) = Some s1
        \<and> \<not> isIndexOutOfBounds 3 s1" .
  let ?s1 = "emits (RawSetIndex_events sample_hdr chip_past_end 3 0 boot_state 0 TimedOut)
               (SetIndexOutOfBoundsFlag 3 boot_state)"
  let ?s2 = "emits (RawMove_events sample_hdr chip_past_end 2 0x10 False 0 ?s1 0 Completed) ?s1"
  have r1: "RawSetIndex sample_hdr chip_past_end 3 0 boot_state = Some ?s1"
    by (rule sample_index_run_past_end)
  have r2: "run sample_hdr chip_past_end [Op_DeallocateMgmtRxBuffer] ?s1 = Some ?s2"
    by (simp add: sample_dealloc_past_end del: exec_op.simps emits_emits flag_emits)
  have ok: "list_all op_ok [Op_DeallocateMgmtRxBuffer]"
    by (simp add: op_ok_def)
  have un: "untouched sample_hdr chip_past_end 3 [Op_DeallocateMgmtRxBuffer] ?s1"
    by (simp add: sample_dealloc_past_end del: exec_op.simps emits_emits flag_emits)
  from oc [where d = chip_past_end and index = 0 and k = 0 and s = boot_state,
           THEN conjunct2, THEN conjunct1, rule_format, OF sample_index_past_end] r1
  have f1: "isIndexOutOfBounds 3 ?s1"
    by simp
  from oc [where d = chip_past_end and index = 0 and k = 0 and s = boot_state
             and s' = ?s1 and xs = "[Op_DeallocateMgmtRxBuffer]" and s'' = ?s2,
           THEN conjunct2, THEN conjunct2, rule_format]
    sample_index_past_end r1 ok un r2
  have f2: "isIndexOutOfBounds 3 ?s2"
    by blast
  from a r1 f1 r2 f2 show ?thesis
    by blast
qed

text \<open>
  C2, as stated, fails: after an index-set on window 3 that times out the flag of the
  window is set, and after the allocation that follows, which is no index-set, it is
  clear, although the most recent index-set on the window timed out.
\<close>

theorem flag_changed_by_allocation:
  "flag_after sample_hdr chip_past_end [Op_RawSetIndex 3 0] boot_state 3 = Some True
   \<and> flag_after sample_hdr chip_past_end [Op_RawSetIndex 3 0, Op_AllocateMgmtTxBuffer 50]
        boot_state 3 = Some False"
proof -
  have fifty: "(50 :: u16) \<le> 0x0fff" by simp
  show ?thesis
    by (simp add: flag_after_def sample_exec_index_past_end
          sample_exec_alloc_past_end [OF fifty]
          flag_after_set [OF sample_windows(2) sample_windows(2)]
          flag_after_clear [OF sample_windows(2) sample_windows(2)]
        del: exec_op.simps)
qed

text \<open>
  C2, amended. For a window \<open>W\<close> of the table, the out-of-bounds flag of \<open>W\<close> is
  changed only by an index-set on \<open>W\<close> and, when \<open>W\<close> is the management Tx window,
  by an \<open>AllocateMgmtTxBuffer\<close> that returns true: a run of operations with neither
  leaves the flag as it was. An index-set on \<open>W\<close> whose poll loop ends (by
  \<open>RawSetIndex\<close>, \<open>RawRead\<close> or \<open>RawWrite\<close>) returns with the flag set exactly when
  it timed out, and a successful \<open>AllocateMgmtTxBuffer\<close> returns with the flag of the
  management Tx window clear.
\<close>

theorem flag_changes_only_by_index_set_or_allocation:
  assumes "w < NUM_RAW_WINDOWS" and "RAW_MGMT_TX_ID h < NUM_RAW_WINDOWS"
  shows "(list_all op_ok xs \<and> untouched h d w xs s \<and> run h d xs s = Some s' \<longrightarrow>
            isIndexOutOfBounds w s' = isIndexOutOfBounds w s)
       \<and> (RawSetIndex_wait h d w s k = Some e \<longrightarrow>
            (\<exists>s1. RawSetIndex h d w index s = Some s1
               \<and> (isIndexOutOfBounds w s1 \<longleftrightarrow> e = TimedOut))
            \<and> (\<exists>r s2. RawRead h d w index len s = Some (r, s2)
               \<and> (isIndexOutOfBounds w s2 \<longleftrightarrow> e = TimedOut))
            \<and> (\<exists>s3. RawWrite h d w index len buf s = Some s3
               \<and> (isIndexOutOfBounds w s3 \<longleftrightarrow> e = TimedOut)))
       \<and> (AllocateMgmtTxBuffer h d n s = Some (True, sa) \<longrightarrow>
            \<not> isIndexOutOfBounds (RAW_MGMT_TX_ID h) sa)"
proof (intro conjI impI)
  assume "list_all op_ok xs \<and> untouched h d w xs s \<and> run h d xs s = Some s'"
  then show "isIndexOutOfBounds w s' = isIndexOutOfBounds w s"
    using run_flag [OF assms] by blast
next
  assume wt: "RawSetIndex_wait h d w s k = Some e"
  from RawSetIndex_flag [OF assms(1) assms(1) wt, of index]
  show "\<exists>s1. RawSetIndex h d w index s = Some s1
               \<and> (isIndexOutOfBounds w s1 \<longleftrightarrow> e = TimedOut)"
    by simp
  from RawRead_flag [OF assms(1) wt]
  show "\<exists>r s2. RawRead h d w index len s = Some (r, s2)
               \<and> (isIndexOutOfBounds w s2 \<longleftrightarrow> e = TimedOut)" .
  from RawWrite_flag [OF assms(1) wt]
  show "\<exists>s3. RawWrite h d w index len buf s = Some s3
               \<and> (isIndexOutOfBounds w s3 \<longleftrightarrow> e = TimedOut)" .
next
  assume "AllocateMgmtTxBuffer h d n s = Some (True, sa)"
  from AllocateMgmtTxBuffer_flag [OF assms(2) assms(2) this]
  show "\<not> isIndexOutOfBounds (RAW_MGMT_TX_ID h) sa"
    by simp
qed

theorem flag_changes_only_by_index_set_or_allocation_witness:
  "isIndexOutOfBounds 3 (boot_state\<lparr>g_RawIndexPastEnd := 0x08\<rparr>)
   \<and> flag_after sample_hdr chip_past_end [Op_RawSetIndex 2 0x10, Op_DeallocateMgmtRxBuffer]
        (boot_state\<lparr>g_RawIndexPastEnd := 0x08\<rparr>) 3 = Some True
   \<and> (\<exists>s1. RawSetIndex sample_hdr chip_ready 3 0 (boot_state\<lparr>g_RawIndexPastEnd := 0x08\<rparr>)
               = Some s1 \<and> \<not> isIndexOutOfBounds 3 s1)
   \<and> (\<exists>s4. AllocateMgmtTxBuffer sample_hdr chip_past_end 50
               (boot_state\<lparr>g_RawIndexPastEnd := 0x08\<rparr>) = Some (True, s4)
          \<and> \<not> isIndexOutOfBounds 3 s4)"
proof -
  let ?s = "boot_state\<lparr>g_RawIndexPastEnd := 0x08\<rparr>"
  let ?xs = "[Op_RawSetIndex 2 0x10, Op_DeallocateMgmtRxBuffer]"
  let ?s1 = "emits (RawSetIndex_events sample_hdr chip_past_end 2 0x10 ?s 0 TimedOut)
               (SetIndexOutOfBoundsFlag 2 ?s)"
  let ?s2 = "emits (RawMove_events sample_hdr chip_past_end 2 0x10 False 0 ?s1 0 Completed) ?s1"
  note fc = flag_changes_only_by_index_set_or_allocation [OF sample_windows(2) sample_windows(3)]
  have f0: "isIndexOutOfBounds 3 ?s"
    by (simp add: isIndexOutOfBounds_def g_RawAccessOutOfBoundsMask_def)
  have ok: "list_all op_ok ?xs"
    by (simp add: op_ok_def NUM_RAW_WINDOWS_def)
  have rn: "run sample_hdr chip_past_end ?xs ?s = Some ?s2"
    by (simp add: sample_exec_index_past_end sample_dealloc_past_end
          del: exec_op.simps emits_emits flag_emits)
  have un: "untouched sample_hdr chip_past_end 3 ?xs ?s"
    by (simp add: sample_exec_index_past_end sample_dealloc_past_end
          del: exec_op.simps emits_emits flag_emits)
  from fc [where d = chip_past_end and xs = ?xs and s = ?s and s' = ?s2,
           THEN conjunct1, rule_format] ok un rn f0
  have "isIndexOutOfBounds 3 ?s2"
    by blast
  with rn have a: "flag_after sample_hdr chip_past_end ?xs ?s 3 = Some True"
    by (simp add: flag_after_def del: run.simps emits_emits flag_emits)
  from fc [where d = chip_ready and s = ?s and k = 0 and e = Completed and index = 0,
           THEN conjunct2, THEN conjunct1, rule_format, OF sample_index_ready,
           THEN conjunct1]
  have b: "\<exists>s1. RawSetIndex sample_hdr chip_ready 3 0 ?s = Some s1 \<and> \<not> isIndexOutOfBounds 3 s1"
    by simp
  have fifty: "(50 :: u16) \<le> 0x0fff" by simp
  let ?s4 = "ClearIndexOutOfBoundsFlag 3
               (emits (RawMove_events sample_hdr chip_past_end 3 0x10 True 50
                         (emits [EvRead 0x31] ?s) 0 Completed)
                  (emits [EvRead 0x31] ?s))"
  have r4: "AllocateMgmtTxBuffer sample_hdr chip_past_end 50 ?s = Some (True, ?s4)"
    by (rule sample_alloc_past_end [OF fifty])
  have tx: "RAW_MGMT_TX_ID sample_hdr = 3"
    by (simp add: sample_hdr_def)
  from fc [where d = chip_past_end and s = ?s and n = 50 and sa = ?s4,
           THEN conjunct2, THEN conjunct2, rule_format, OF r4]
  have "\<not> isIndexOutOfBounds 3 ?s4"
    unfolding tx .
  with r4 have c: "\<exists>s4. AllocateMgmtTxBuffer sample_hdr chip_past_end 50 ?s = Some (True, s4)
          \<and> \<not> isIndexOutOfBounds 3 s4"
    by blast
  from f0 a b c show ?thesis
    by blast
qed

end
